theory Spec2Isabelle
  imports Main "HOL-Library.Word"
begin

section \<open>JavaScript strings\<close>

text \<open>
  A JavaScript string is a sequence of UTF-16 code units; a code unit is modelled as a
  natural number. \<open>js\<close> embeds a literal of the source (all literals of the modelled code
  are ASCII).
\<close>

type_synonym jsstring = "nat list"

definition js :: "string \<Rightarrow> jsstring" where
  "js s = map of_char s"

text \<open>
  The \<open>LineTerminator\<close> and \<open>WhiteSpace\<close> productions of ECMAScript: LF, CR, U+2028,
  U+2029, and TAB, VT, FF, SP, NBSP, U+FEFF plus the space separators (category Zs).
  \<open>String.prototype.trim\<close> and the regular-expression class \<open>\s\<close> both use their union.
\<close>

definition isLineTerminator :: "nat \<Rightarrow> bool" where
  "isLineTerminator c = (c = 10 \<or> c = 13 \<or> c = 8232 \<or> c = 8233)"

definition isWhiteSpace :: "nat \<Rightarrow> bool" where
  "isWhiteSpace c = (c = 9 \<or> c = 11 \<or> c = 12 \<or> c = 32 \<or> c = 160 \<or> c = 5760
     \<or> (8192 \<le> c \<and> c \<le> 8202) \<or> c = 8239 \<or> c = 8287 \<or> c = 12288 \<or> c = 65279)"

definition isSpace :: "nat \<Rightarrow> bool" where
  "isSpace c = (isWhiteSpace c \<or> isLineTerminator c)"

text \<open>The class \<open>\w\<close> (no \<open>i\<close> or \<open>u\<close> flag): ASCII letters, digits and the underscore.\<close>

definition isWordChar :: "nat \<Rightarrow> bool" where
  "isWordChar c = ((48 \<le> c \<and> c \<le> 57) \<or> (65 \<le> c \<and> c \<le> 90) \<or> c = 95 \<or> (97 \<le> c \<and> c \<le> 122))"

definition trim :: "jsstring \<Rightarrow> jsstring" where
  "trim s = rev (dropWhile isSpace (rev (dropWhile isSpace s)))"

text \<open>
  \<open>String.prototype.toLowerCase\<close>. The Unicode lower-case table is written out for the
  code units below 256 (Basic Latin and Latin-1 Supplement: A-Z, and U+00C0-U+00DE without
  the multiplication sign); code units from 256 on are outside the modelled table and are
  left as they are, where JavaScript lower-cases the cased letters among them too (the
  Kelvin sign U+212A to \<open>k\<close>, and U+0130 to \<open>i\<close> followed by U+0307). The texts
  evaluated below are ASCII, and the general statements are about the lower-cased text.
\<close>

definition lowerUnit :: "nat \<Rightarrow> nat" where
  "lowerUnit c =
     (if 65 \<le> c \<and> c \<le> 90 then c + 32
      else if 192 \<le> c \<and> c \<le> 222 \<and> c \<noteq> 215 then c + 32
      else c)"

definition toLowerCase :: "jsstring \<Rightarrow> jsstring" where
  "toLowerCase s = map lowerUnit s"

text \<open>\<open>input.includes('\r')\<close> with a one-unit needle.\<close>

definition str_includes :: "jsstring \<Rightarrow> nat \<Rightarrow> bool" where
  "str_includes s c = (c \<in> set s)"

section \<open>Regular expressions\<close>

text \<open>
  The regular-expression literals of the source use literal characters, \<open>.\<close>, \<open>\s\<close>,
  \<open>\b\<close>, \<open>^\<close>, \<open>$\<close>, groups, alternation and the quantifiers \<open>*\<close>, \<open>+\<close>, \<open>?\<close>
  (no flags, no back-references). A matcher state is the code unit before the current
  position (\<open>None\<close> at the start of the input) and the rest of the input; \<open>rmatch r st\<close>
  lists the states in which a match of \<open>r\<close> begun at \<open>st\<close> can end. As in ECMAScript, an
  iteration of \<open>*\<close> that consumes nothing is not repeated.
\<close>

datatype regex = Chr nat | Dot | Space | WordB | Bol | Eol | Empty
  | Seq regex regex | Alt regex regex | Star regex

type_synonym mstate = "nat option \<times> nat list"

function (sequential) rmatch :: "regex \<Rightarrow> mstate \<Rightarrow> mstate list" where
  "rmatch (Chr c) (p, []) = []"
| "rmatch (Chr c) (p, x # xs) = (if x = c then [(Some x, xs)] else [])"
| "rmatch Dot (p, []) = []"
| "rmatch Dot (p, x # xs) = (if isLineTerminator x then [] else [(Some x, xs)])"
| "rmatch Space (p, []) = []"
| "rmatch Space (p, x # xs) = (if isSpace x then [(Some x, xs)] else [])"
| "rmatch WordB (p, xs) =
     (let a = (case p of None \<Rightarrow> False | Some c \<Rightarrow> isWordChar c);
          b = (case xs of [] \<Rightarrow> False | x # _ \<Rightarrow> isWordChar x)
      in if a \<noteq> b then [(p, xs)] else [])"
| "rmatch Bol (p, xs) = (if p = None then [(p, xs)] else [])"
| "rmatch Eol (p, xs) = (if xs = [] then [(p, xs)] else [])"
| "rmatch Empty st = [st]"
| "rmatch (Seq a b) st = concat (map (rmatch b) (rmatch a st))"
| "rmatch (Alt a b) st = rmatch a st @ rmatch b st"
| "rmatch (Star a) st =
     st # concat (map (rmatch (Star a))
                      (filter (\<lambda>st'. length (snd st') < length (snd st)) (rmatch a st)))"
  by pat_completeness auto
termination
  by (relation "measure size <*lex*> measure (\<lambda>st. length (snd st))") auto

text \<open>The equation of \<open>Star\<close> unfolds for ever on an open term: it is used by hand.\<close>

declare rmatch.simps(13) [simp del]

text \<open>All positions of an input, each with the code unit before it.\<close>

fun starts :: "nat option \<Rightarrow> nat list \<Rightarrow> mstate list" where
  "starts p [] = [(p, [])]"
| "starts p (x # xs) = (p, x # xs) # starts (Some x) xs"

text \<open>\<open>RegExp.prototype.test\<close>: the pattern matches at some position of the input.\<close>

definition test :: "regex \<Rightarrow> jsstring \<Rightarrow> bool" where
  "test r s = list_ex (\<lambda>st. rmatch r st \<noteq> []) (starts None s)"

fun lit :: "jsstring \<Rightarrow> regex" where
  "lit [] = Empty"
| "lit [c] = Chr c"
| "lit (c # cs) = Seq (Chr c) (lit cs)"

fun alts :: "regex list \<Rightarrow> regex" where
  "alts [] = Empty"
| "alts [r] = r"
| "alts (r # rs) = Alt r (alts rs)"

fun seqs :: "regex list \<Rightarrow> regex" where
  "seqs [] = Empty"
| "seqs [r] = r"
| "seqs (r # rs) = Seq r (seqs rs)"

definition Plus :: "regex \<Rightarrow> regex" where
  "Plus r = Seq r (Star r)"

definition Opt :: "regex \<Rightarrow> regex" where
  "Opt r = Alt r Empty"

text \<open>\<open>^(w1|w2|...)(\s|$)\<close>, the shape of the four verb tables of the classifier.\<close>

definition verbs :: "string list \<Rightarrow> regex" where
  "verbs ws = seqs [Bol, alts (map (\<lambda>w. lit (js w)) ws), Alt Space Eol]"

section \<open>JavaScript values\<close>

text \<open>
  The payload of a connect request is whatever JSON the client sent. Numbers are
  modelled as integers (only their truthiness is read). Reading a property of
  \<open>undefined\<close> or \<open>null\<close> throws a TypeError; reading a property that an object or a
  primitive does not have gives \<open>undefined\<close>.
\<close>

datatype jsval = JUndefined | JNull | JBool bool | JNum int | JStr jsstring
  | JObj "(string \<times> jsval) list"

fun truthy :: "jsval \<Rightarrow> bool" where
  "truthy JUndefined = False"
| "truthy JNull = False"
| "truthy (JBool b) = b"
| "truthy (JNum n) = (n \<noteq> 0)"
| "truthy (JStr s) = (s \<noteq> [])"
| "truthy (JObj kvs) = True"

fun nullish :: "jsval \<Rightarrow> bool" where
  "nullish JUndefined = True"
| "nullish JNull = True"
| "nullish v = False"

fun getProp :: "jsval \<Rightarrow> string \<Rightarrow> jsval" where
  "getProp (JObj kvs) k = (case map_of kvs k of None \<Rightarrow> JUndefined | Some v \<Rightarrow> v)"
| "getProp v k = JUndefined"

text \<open>The operator \<open>||\<close>.\<close>

definition orElse :: "jsval \<Rightarrow> jsval \<Rightarrow> jsval" where
  "orElse a b = (if truthy a then a else b)"

section \<open>The Command model (models/Command.js)\<close>

datatype command_type = System | File | Network | Process | Custom | Unknown

text \<open>
  A Command document. \<open>c_id\<close> is \<open>_id\<close>, \<open>c_user_id\<close>, \<open>c_server_ip\<close> and \<open>c_output\<close> are the
  schema's \<open>user_id\<close>, \<open>server_ip\<close> and \<open>output\<close> (renamed), \<open>isNew\<close>
  is Mongoose's flag of a document that has not been stored yet.
\<close>

record Command =
  c_id :: nat
  session_id :: nat
  c_user_id :: jsval
  c_server_ip :: jsval
  command :: jsstring
  c_output :: jsstring
  executed_at :: int
  execution_time :: int
  exit_code :: "int option"
  command_type :: command_type
  is_dangerous :: bool
  isNew :: bool

definition systemVerbs :: regex where
  "systemVerbs = verbs [''ls'', ''pwd'', ''cd'', ''whoami'', ''id'', ''uname'', ''uptime'',
                        ''date'', ''cal'', ''history'']"

definition fileVerbs :: regex where
  "fileVerbs = verbs [''cat'', ''less'', ''more'', ''head'', ''tail'', ''grep'', ''find'',
                      ''locate'', ''which'', ''file'', ''stat'', ''touch'', ''mkdir'', ''rmdir'',
                      ''cp'', ''mv'', ''ln'', ''chmod'', ''chown'', ''chgrp'']"

definition networkVerbs :: regex where
  "networkVerbs = verbs [''ping'', ''wget'', ''curl'', ''ssh'', ''scp'', ''ftp'', ''telnet'',
                         ''netstat'', ''ss'', ''lsof'', ''iptables'']"

definition processVerbs :: regex where
  "processVerbs = verbs [''ps'', ''top'', ''htop'', ''jobs'', ''kill'', ''killall'', ''nohup'',
                         ''screen'', ''tmux'', ''bg'', ''fg'']"

definition classifyCommand :: "Command \<Rightarrow> Command" where
  "classifyCommand this =
     (let cmd = trim (toLowerCase (command this)) in
      if test systemVerbs cmd then this\<lparr>command_type := System\<rparr>
      else if test fileVerbs cmd then this\<lparr>command_type := File\<rparr>
      else if test networkVerbs cmd then this\<lparr>command_type := Network\<rparr>
      else if test processVerbs cmd then this\<lparr>command_type := Process\<rparr>
      else this\<lparr>command_type := Custom\<rparr>)"

text \<open>
  The eleven patterns, in the order of the source. In the fifth, \<open>()\<close> is an empty group
  and the braces are literal characters (they do not form a quantifier), so the pattern
  reads: a colon, nothing, then \<open>{ :|:& };:\<close>.
\<close>

definition devicePattern :: regex where
  "devicePattern =
     seqs [lit (js ''/dev/''),
           alts [lit (js ''null''), lit (js ''zero''), lit (js ''random''), lit (js ''urandom'')],
           Star Dot, Chr 62]"

definition dangerousPatterns :: "regex list" where
  "dangerousPatterns =
    [seqs [Bol, lit (js ''rm''), Plus Space, lit (js ''-r''), Opt (Chr 102), Plus Space, Chr 47],
     seqs [Bol, lit (js ''dd''), Plus Space, lit (js ''if='')],
     seqs [Bol, lit (js ''mkfs'')],
     seqs [Bol, lit (js ''fdisk'')],
     seqs [Bol, Chr 58, Empty, lit (js ''{ :|:& };:'')],
     seqs [Bol, lit (js ''sudo''), Plus Space, lit (js ''rm'')],
     seqs [WordB, lit (js ''sudo''), WordB, Star Dot, WordB, lit (js ''passwd''), WordB],
     seqs [Bol, lit (js ''chmod''), Plus Space, lit (js ''777'')],
     seqs [Bol, lit (js ''curl''), Star Dot, Chr 124, Star Space, lit (js ''sh''), Eol],
     seqs [Bol, lit (js ''wget''), Star Dot, Chr 124, Star Space, lit (js ''sh''), Eol],
     devicePattern]"

definition checkIfDangerous :: "Command \<Rightarrow> Command" where
  "checkIfDangerous this =
     (let cmd = trim (toLowerCase (command this)) in
      this\<lparr>is_dangerous := list_ex (\<lambda>pattern. test pattern cmd) dangerousPatterns\<rparr>)"

text \<open>The pre-save middleware of the Command schema.\<close>

definition command_pre_save :: "Command \<Rightarrow> Command" where
  "command_pre_save this =
     (if command this \<noteq> [] \<and> isNew this then checkIfDangerous (classifyCommand this)
      else this)"

text \<open>
  \<open>new Command({session_id, user_id, server_ip, command, executed_at, output: ""})\<close>:
  the other fields take the defaults of the schema.
\<close>

definition new_Command :: "nat \<Rightarrow> nat \<Rightarrow> jsval \<Rightarrow> jsval \<Rightarrow> jsstring \<Rightarrow> int \<Rightarrow> Command" where
  "new_Command oid sess uid ip text now =
     \<lparr>c_id = oid, session_id = sess, c_user_id = uid, c_server_ip = ip, command = text,
      c_output = [], executed_at = now, execution_time = 0, exit_code = None,
      command_type = Unknown, is_dangerous = False, isNew = True\<rparr>"

section \<open>The ServerSession model (models/ServerSession.js)\<close>

datatype status = Active | Disconnected | Timeout

text \<open>
  A ServerSession document; \<open>s_id\<close> is \<open>_id\<close>, times are milliseconds since the epoch.
  \<open>logout_time\<close> has no default, so it is absent until it is assigned;
  \<open>session_duration\<close> has the default \<open>0\<close>. The display name, the browser and connection
  metadata and Mongoose's own timestamps are never read by the session manager and are
  left out. Values are kept as they were passed (Mongoose's casts are part of \<open>save\<close>,
  whose outcome is an input of the model).
\<close>

record ServerSession =
  s_id :: nat
  user_id :: jsval
  server_ip :: jsval
  ssh_username :: jsval
  login_time :: int
  logout_time :: "int option"
  session_duration :: "int option"
  status :: status
  commands_executed :: "nat list"

text \<open>
  \<open>new ServerSession({user_id, server_ip, server_name, ssh_username, login_time,
  status: "active"})\<close>; the duration takes the default of the schema.
\<close>

definition new_ServerSession :: "nat \<Rightarrow> jsval \<Rightarrow> jsval \<Rightarrow> jsval \<Rightarrow> int \<Rightarrow> ServerSession" where
  "new_ServerSession oid uid host username now =
     \<lparr>s_id = oid, user_id = uid, server_ip = host, ssh_username = username,
      login_time = now, logout_time = None, session_duration = Some 0, status = Active,
      commands_executed = []\<rparr>"

text \<open>
  The pre-save middleware: \<open>if (this.logout_time && this.login_time &&
  !this.session_duration)\<close>. A Date object is truthy, \<open>login_time\<close> is always set, and
  \<open>!this.session_duration\<close> holds for a missing value and for \<open>0\<close>. \<open>Math.floor\<close> of
  the quotient is \<open>div\<close> on the integers.
\<close>

definition session_pre_save :: "ServerSession \<Rightarrow> ServerSession" where
  "session_pre_save this =
     (case logout_time this of
        None \<Rightarrow> this
      | Some lo \<Rightarrow>
          if session_duration this = None \<or> session_duration this = Some 0
          then this\<lparr>session_duration := Some ((lo - login_time this) div 1000)\<rparr>
          else this)"

section \<open>The session manager (the \<open>io.on("connection")\<close> callback of the server)\<close>

datatype error = TypeError | MissingParameters | InvalidUserData | ConnectFailed
  | SaveFailed | ShellFailed | StreamFailed | ConnectionLost

text \<open>
  What \<open>socket.emit\<close> sends to the client: \<open>"ssh-connected"\<close> with the host and the login
  name (its display name is left out), \<open>"ssh-output"\<close>, \<open>"ssh-disconnected"\<close> and
  \<open>"ssh-error"\<close>.
\<close>

datatype emit = SshConnected jsval jsval | SshOutput jsstring | SshDisconnected | SshError error

text \<open>
  The outcome of a \<open>save()\<close> is decided by the document store and is an input of the
  model: the document is stored, or validation rejects it (the pre-save middleware has
  not run), or the write fails after the middleware has run. Both failures throw.
\<close>

datatype save_result = Saved | Invalid | WriteError

record active_entry =
  sessionId :: nat
  userId :: jsval
  serverIp :: jsval
  loginTime :: int

text \<open>A shell stream: whether it is destroyed, and what \<open>stream.write\<close> has passed to it.\<close>

record shell_stream =
  destroyed :: bool
  written :: "jsstring list"

text \<open>
  A listener for \<open>"ssh-input"\<close>, with the variables of the \<open>handleSSHConnect\<close> call that
  registered it: its \<open>stream\<close> (an index into \<open>streams\<close>), \<open>userData\<close> and \<open>host\<close>.
\<close>

record input_handler =
  h_stream :: nat
  h_userData :: jsval
  h_host :: jsval

text \<open>
  What an input event meets outside the program: the reading of the clock and the
  outcomes of the two saves that the listener may call.
\<close>

record input_env =
  now_input :: int
  command_saved :: save_result
  session_resaved :: save_result

text \<open>
  The input listener is an \<open>async\<close> function with two \<open>await\<close>s. An invocation that is
  suspended at one of them is a task: at \<open>await newCommand.save()\<close> (with the document
  that the save will return, or nothing when it will throw), or at
  \<open>await currentSession.save()\<close> (with the error that it will throw, if any).
\<close>

datatype task =
    CommandSave input_env "Command option"
  | SessionSave "error option"

text \<open>
  The state of one transport connection: the variables of the callback
  (\<open>currentSession\<close>, \<open>commandBuffer\<close>, \<open>currentCommand\<close>), the two collections of the
  document store, the process-wide map \<open>activeSessions\<close>, the events emitted to the
  client, the shell streams opened so far, the registered input listeners, the suspended
  invocations of the input listener, the number of pending capture timers, the errors
  written by \<open>console.error\<close>, the promise rejections that nothing handles, and a counter
  for fresh \<open>_id\<close>s.

  The effect of a \<open>save()\<close> on the store is taken at the call. The two \<open>await\<close>s of the
  input listener are points at which other events are served; \<open>handleSSHConnect\<close>,
  \<open>handleSessionEnd\<close> and the callback of the capture timer are each one step of the
  model.
\<close>

record conn =
  socket_id :: nat
  currentSession :: "ServerSession option"
  commandBuffer :: jsstring
  currentCommand :: "Command option"
  sessions :: "nat \<rightharpoonup> ServerSession"
  commands :: "nat \<rightharpoonup> Command"
  activeSessions :: "nat \<rightharpoonup> active_entry"
  emitted :: "emit list"
  streams :: "shell_stream list"
  input_handlers :: "input_handler list"
  pending :: "task list"
  timers :: nat
  logged :: "error list"
  unhandled :: "error list"
  ssh_disposed :: bool
  next_id :: nat

definition connection :: "nat \<Rightarrow> (nat \<rightharpoonup> ServerSession) \<Rightarrow> (nat \<rightharpoonup> Command)
    \<Rightarrow> (nat \<rightharpoonup> active_entry) \<Rightarrow> nat \<Rightarrow> conn" where
  "connection sid ss cs reg n =
     \<lparr>socket_id = sid, currentSession = None, commandBuffer = [], currentCommand = None,
      sessions = ss, commands = cs, activeSessions = reg, emitted = [], streams = [],
      input_handlers = [], pending = [], timers = 0, logged = [], unhandled = [],
      ssh_disposed = False, next_id = n\<rparr>"

text \<open>
  \<open>currentSession.save()\<close>: the in-memory document is \<open>currentSession\<close>; a thrown error
  carries the state reached so far.
\<close>

definition session_save :: "save_result \<Rightarrow> conn \<Rightarrow> (error \<times> conn) + conn" where
  "session_save r s =
     (case currentSession s of
        None \<Rightarrow> Inl (TypeError, s)
      | Some doc \<Rightarrow>
          (case r of
             Invalid \<Rightarrow> Inl (SaveFailed, s)
           | WriteError \<Rightarrow> Inl (SaveFailed, s\<lparr>currentSession := Some (session_pre_save doc)\<rparr>)
           | Saved \<Rightarrow>
               Inr (s\<lparr>currentSession := Some (session_pre_save doc),
                      sessions := (sessions s)(s_id doc \<mapsto> session_pre_save doc)\<rparr>)))"

text \<open>\<open>doc.save()\<close> of a Command: the stored document, or nothing when it throws.\<close>

definition command_save :: "save_result \<Rightarrow> Command \<Rightarrow> Command option" where
  "command_save r c =
     (case r of Saved \<Rightarrow> Some ((command_pre_save c)\<lparr>isNew := False\<rparr>) | Invalid \<Rightarrow> None
      | WriteError \<Rightarrow> None)"

text \<open>The four shapes of user data that \<open>handleSSHConnect\<close> accepts.\<close>

definition extractUserData :: "jsval \<Rightarrow> jsval" where
  "extractUserData connectionData =
     (if truthy (getProp connectionData ''userId'') then
        JObj [(''id'', getProp connectionData ''userId''),
              (''name'', getProp connectionData ''userName''),
              (''email'', getProp connectionData ''userEmail''),
              (''registered_id'', getProp connectionData ''registeredId''),
              (''role'', getProp connectionData ''userRole'')]
      else if truthy (getProp connectionData ''user'') then
        JObj [(''id'', getProp (getProp connectionData ''user'') ''id''),
              (''name'', getProp (getProp connectionData ''user'') ''name''),
              (''email'', getProp (getProp connectionData ''user'') ''email''),
              (''registered_id'', getProp (getProp connectionData ''user'') ''registered_id''),
              (''role'', getProp (getProp connectionData ''user'') ''role'')]
      else if truthy (getProp connectionData ''user_data'') then
        getProp connectionData ''user_data''
      else
        JObj [(''id'', orElse (getProp connectionData ''user_id'') (getProp connectionData ''id'')),
              (''name'', orElse (getProp connectionData ''user_name'') (getProp connectionData ''name'')),
              (''email'', orElse (getProp connectionData ''user_email'') (getProp connectionData ''email'')),
              (''registered_id'', getProp connectionData ''registered_id''),
              (''role'', orElse (getProp connectionData ''user_role'') (getProp connectionData ''role''))])"

text \<open>
  What a connect request meets outside the program: two readings of the clock, whether
  \<open>ssh.connect\<close> and \<open>ssh.requestShell\<close> succeed, and the outcome of the first save.
\<close>

record connect_env =
  now_login :: int
  now_registry :: int
  connect_ok :: bool
  session_saved :: save_result
  shell_ok :: bool

text \<open>
  The \<open>try\<close> block of \<open>handleSSHConnect\<close>. Reading \<open>connectionData.host\<close> throws when
  the payload is \<open>undefined\<close> or \<open>null\<close>; every later property read is on the payload or
  on a truthy value and cannot throw.
\<close>

definition handleSSHConnect_try :: "connect_env \<Rightarrow> jsval \<Rightarrow> conn \<Rightarrow> (error \<times> conn) + conn" where
  "handleSSHConnect_try env connectionData s =
     (if nullish connectionData then Inl (TypeError, s)
      else
        let host = getProp connectionData ''host'';
            username = getProp connectionData ''username'';
            password = getProp connectionData ''password'';
            userData = extractUserData connectionData
        in
        if \<not> truthy host \<or> \<not> truthy username \<or> \<not> truthy password
        then Inl (MissingParameters, s)
        else if \<not> truthy userData \<or> \<not> truthy (getProp userData ''id'')
        then Inl (InvalidUserData, s)
        else if \<not> connect_ok env then Inl (ConnectFailed, s)
        else
          let s1 = s\<lparr>emitted := emitted s @ [SshConnected host username]\<rparr>;
              s2 = s1\<lparr>currentSession :=
                         Some (new_ServerSession (next_id s1) (getProp userData ''id'') host
                                 username (now_login env)),
                       next_id := Suc (next_id s1)\<rparr>
          in
          case session_save (session_saved env) s2 of
            Inl es \<Rightarrow> Inl es
          | Inr s3 \<Rightarrow>
              let s4 = s3\<lparr>activeSessions := (activeSessions s3)(socket_id s3 \<mapsto>
                            \<lparr>sessionId = next_id s1, userId = getProp userData ''id'',
                             serverIp = host, loginTime = now_registry env\<rparr>)\<rparr>
              in
              if \<not> shell_ok env then Inl (ShellFailed, s4)
              else
                Inr (s4\<lparr>streams := streams s4 @ [\<lparr>destroyed = False, written = []\<rparr>],
                        input_handlers := input_handlers s4 @
                          [\<lparr>h_stream = length (streams s4), h_userData = userData,
                            h_host = host\<rparr>]\<rparr>))"

text \<open>The \<open>catch\<close>: the error is logged and sent to the client as \<open>"ssh-error"\<close>.\<close>

definition handleSSHConnect :: "connect_env \<Rightarrow> jsval \<Rightarrow> conn \<Rightarrow> conn" where
  "handleSSHConnect env connectionData s =
     (case handleSSHConnect_try env connectionData s of
        Inl (e, s') \<Rightarrow> s'\<lparr>emitted := emitted s' @ [SshError e], logged := logged s' @ [e]\<rparr>
      | Inr s' \<Rightarrow> s')"

text \<open>
  \<open>handleSessionEnd\<close>, with the reading of the clock and the outcome of the save. The
  registry entry is deleted after a successful save only; a failed save is logged.
\<close>

definition handleSessionEnd :: "int \<Rightarrow> save_result \<Rightarrow> conn \<Rightarrow> conn" where
  "handleSessionEnd logoutTime r s =
     (case currentSession s of
        None \<Rightarrow> s
      | Some doc \<Rightarrow>
          let duration = (logoutTime - login_time doc) div 1000;
              s1 = s\<lparr>currentSession :=
                        Some (doc\<lparr>logout_time := Some logoutTime,
                                  session_duration := Some duration,
                                  status := Disconnected\<rparr>)\<rparr>
          in
          case session_save r s1 of
            Inl (e, s') \<Rightarrow> s'\<lparr>logged := logged s' @ [e]\<rparr>
          | Inr s' \<Rightarrow> s'\<lparr>activeSessions := (activeSessions s')(socket_id s' := None)\<rparr>)"

subsection \<open>Shell output\<close>

text \<open>
  The shell stream delivers Buffers (byte sequences); the listener calls
  \<open>data.toString()\<close>, which is the UTF-8 decoder of the runtime: an ill-formed or
  truncated sequence becomes one U+FFFD and decoding resumes at the offending byte; a code
  point above U+FFFF becomes a surrogate pair.
\<close>

definition continuation :: "8 word \<Rightarrow> bool" where
  "continuation c = (0x80 \<le> c \<and> c \<le> 0xBF)"

definition second_of_3 :: "8 word \<Rightarrow> 8 word \<Rightarrow> bool" where
  "second_of_3 b c =
     (if b = 0xE0 then 0xA0 \<le> c \<and> c \<le> 0xBF
      else if b = 0xED then 0x80 \<le> c \<and> c \<le> 0x9F
      else continuation c)"

definition second_of_4 :: "8 word \<Rightarrow> 8 word \<Rightarrow> bool" where
  "second_of_4 b c =
     (if b = 0xF0 then 0x90 \<le> c \<and> c \<le> 0xBF
      else if b = 0xF4 then 0x80 \<le> c \<and> c \<le> 0x8F
      else continuation c)"

definition unit2 :: "8 word \<Rightarrow> 8 word \<Rightarrow> nat" where
  "unit2 b c = (unat b - 0xC0) * 64 + (unat c - 0x80)"

definition unit3 :: "8 word \<Rightarrow> 8 word \<Rightarrow> 8 word \<Rightarrow> nat" where
  "unit3 b c d = (unat b - 0xE0) * 4096 + (unat c - 0x80) * 64 + (unat d - 0x80)"

definition units4 :: "8 word \<Rightarrow> 8 word \<Rightarrow> 8 word \<Rightarrow> 8 word \<Rightarrow> nat list" where
  "units4 b c d e =
     (let cp = (unat b - 0xF0) * 262144 + (unat c - 0x80) * 4096 + (unat d - 0x80) * 64
               + (unat e - 0x80)
      in [0xD800 + (cp - 0x10000) div 1024, 0xDC00 + (cp - 0x10000) mod 1024])"

fun Buffer_toString :: "8 word list \<Rightarrow> jsstring" where
  "Buffer_toString [] = []"
| "Buffer_toString (b # bs) =
     (if b < 0x80 then unat b # Buffer_toString bs
      else if 0xC2 \<le> b \<and> b \<le> 0xDF then
        (case bs of
           [] \<Rightarrow> [0xFFFD]
         | c # cs \<Rightarrow>
             if continuation c then unit2 b c # Buffer_toString cs
             else 0xFFFD # Buffer_toString bs)
      else if 0xE0 \<le> b \<and> b \<le> 0xEF then
        (case bs of
           [] \<Rightarrow> [0xFFFD]
         | c # cs \<Rightarrow>
             if second_of_3 b c then
               (case cs of
                  [] \<Rightarrow> [0xFFFD]
                | d # ds \<Rightarrow>
                    if continuation d then unit3 b c d # Buffer_toString ds
                    else 0xFFFD # Buffer_toString cs)
             else 0xFFFD # Buffer_toString bs)
      else if 0xF0 \<le> b \<and> b \<le> 0xF4 then
        (case bs of
           [] \<Rightarrow> [0xFFFD]
         | c # cs \<Rightarrow>
             if second_of_4 b c then
               (case cs of
                  [] \<Rightarrow> [0xFFFD]
                | d # ds \<Rightarrow>
                    if continuation d then
                      (case ds of
                         [] \<Rightarrow> [0xFFFD]
                       | e # es \<Rightarrow>
                           if continuation e then units4 b c d e @ Buffer_toString es
                           else 0xFFFD # Buffer_toString ds)
                    else 0xFFFD # Buffer_toString cs)
             else 0xFFFD # Buffer_toString bs)
      else 0xFFFD # Buffer_toString bs)"

text \<open>A byte sequence that is well-formed UTF-8 on its own: the decoder never replaces.\<close>

fun wellFormed :: "8 word list \<Rightarrow> bool" where
  "wellFormed [] = True"
| "wellFormed (b # bs) =
     (if b < 0x80 then wellFormed bs
      else if 0xC2 \<le> b \<and> b \<le> 0xDF then
        (case bs of [] \<Rightarrow> False | c # cs \<Rightarrow> continuation c \<and> wellFormed cs)
      else if 0xE0 \<le> b \<and> b \<le> 0xEF then
        (case bs of
           c # d # ds \<Rightarrow> second_of_3 b c \<and> continuation d \<and> wellFormed ds
         | _ \<Rightarrow> False)
      else if 0xF0 \<le> b \<and> b \<le> 0xF4 then
        (case bs of
           c # d # e # es \<Rightarrow>
             second_of_4 b c \<and> continuation d \<and> continuation e \<and> wellFormed es
         | _ \<Rightarrow> False)
      else False)"

text \<open>The listener for \<open>"data"\<close> of the shell stream.\<close>

definition stream_on_data :: "8 word list \<Rightarrow> conn \<Rightarrow> conn" where
  "stream_on_data data s =
     (let output = Buffer_toString data;
          s1 = s\<lparr>emitted := emitted s @ [SshOutput output]\<rparr>
      in case currentCommand s1 of
           None \<Rightarrow> s1
         | Some c \<Rightarrow> s1\<lparr>currentCommand := Some (c\<lparr>c_output := c_output c @ output\<rparr>)\<rparr>)"

text \<open>The listeners for \<open>"close"\<close> and \<open>"error"\<close> of the shell stream.\<close>

definition stream_on_close :: "int \<Rightarrow> save_result \<Rightarrow> conn \<Rightarrow> conn" where
  "stream_on_close now r s = handleSessionEnd now r (s\<lparr>emitted := emitted s @ [SshDisconnected]\<rparr>)"

definition stream_on_error :: "conn \<Rightarrow> conn" where
  "stream_on_error s =
     s\<lparr>emitted := emitted s @ [SshError StreamFailed], logged := logged s @ [StreamFailed]\<rparr>"

subsection \<open>Keystrokes\<close>

text \<open>
  The listener for \<open>"ssh-input"\<close>, up to its first \<open>await\<close>. The chunk is written to the
  stream first. A chunk with a CR or LF in it ends a line: the trimmed buffer is the
  command. When there is a command and a session, the Command is built, its save is
  called and the invocation is suspended, with the buffer as it is; otherwise the buffer
  is emptied at once. Any other chunk is appended to the buffer.
\<close>

definition ssh_input :: "input_handler \<Rightarrow> input_env \<Rightarrow> jsstring \<Rightarrow> conn \<Rightarrow> conn" where
  "ssh_input h env input s =
     (if h_stream h < length (streams s) \<and> \<not> destroyed (streams s ! h_stream h) then
        let stream = streams s ! h_stream h;
            s1 = s\<lparr>streams := (streams s)[h_stream h :=
                        stream\<lparr>written := written stream @ [input]\<rparr>]\<rparr>
        in
        if str_includes input 13 \<or> str_includes input 10 then
          let cmd = trim (commandBuffer s1) in
          (case currentSession s1 of
             None \<Rightarrow> s1\<lparr>commandBuffer := []\<rparr>
           | Some sess \<Rightarrow>
               if cmd \<noteq> [] then
                 let newCommand = new_Command (next_id s1) (s_id sess)
                                    (getProp (h_userData h) ''id'') (h_host h) cmd (now_input env);
                     saved = command_save (command_saved env) newCommand
                 in s1\<lparr>next_id := Suc (next_id s1),
                        commands := (case saved of None \<Rightarrow> commands s1
                                     | Some c \<Rightarrow> (commands s1)(c_id c \<mapsto> c)),
                        pending := pending s1 @ [CommandSave env saved]\<rparr>
               else s1\<lparr>commandBuffer := []\<rparr>)
        else s1\<lparr>commandBuffer := commandBuffer s1 @ input\<rparr>
      else
        s\<lparr>emitted := emitted s @ [SshError ConnectionLost],
          logged := logged s @ [ConnectionLost]\<rparr>)"

text \<open>
  The listener after \<open>await newCommand.save()\<close>. A rejection goes to the \<open>catch\<close>: it is
  logged, and the buffer is emptied. Otherwise the stored document becomes
  \<open>currentCommand\<close>, its id is pushed onto the session that is tracked now, the save of
  the session is called, and the invocation is suspended again.
\<close>

definition after_command_save :: "input_env \<Rightarrow> Command option \<Rightarrow> conn \<Rightarrow> conn" where
  "after_command_save env saved s =
     (case saved of
        None \<Rightarrow> s\<lparr>logged := logged s @ [SaveFailed], commandBuffer := []\<rparr>
      | Some c \<Rightarrow>
          (case currentSession s of
             None \<Rightarrow>
               s\<lparr>currentCommand := Some c, logged := logged s @ [TypeError],
                 commandBuffer := []\<rparr>
           | Some sess \<Rightarrow>
               let s1 = s\<lparr>currentCommand := Some c,
                          currentSession :=
                            Some (sess\<lparr>commands_executed := commands_executed sess @ [c_id c]\<rparr>)\<rparr>
               in
               case session_save (session_resaved env) s1 of
                 Inl (e, s2) \<Rightarrow> s2\<lparr>pending := pending s2 @ [SessionSave (Some e)]\<rparr>
               | Inr s2 \<Rightarrow> s2\<lparr>pending := pending s2 @ [SessionSave None]\<rparr>))"

text \<open>
  The listener after \<open>await currentSession.save()\<close>: the capture timer is armed, or the
  rejection is caught and logged; then the buffer is emptied, with whatever has been
  appended to it in the meantime.
\<close>

definition after_session_save :: "error option \<Rightarrow> conn \<Rightarrow> conn" where
  "after_session_save thrown s =
     (case thrown of
        None \<Rightarrow> s\<lparr>timers := Suc (timers s), commandBuffer := []\<rparr>
      | Some e \<Rightarrow> s\<lparr>logged := logged s @ [e], commandBuffer := []\<rparr>)"

text \<open>The awaited save of the \<open>k\<close>-th suspended invocation settles, and it resumes.\<close>

definition settle :: "nat \<Rightarrow> conn \<Rightarrow> conn" where
  "settle k s =
     (if k < length (pending s) then
        let s1 = s\<lparr>pending := take k (pending s) @ drop (Suc k) (pending s)\<rparr> in
        (case pending s ! k of
           CommandSave env saved \<Rightarrow> after_command_save env saved s1
         | SessionSave thrown \<Rightarrow> after_session_save thrown s1)
      else s)"

text \<open>
  The callback of the capture timer (2000 ms after a command was stored). Its save is
  outside every \<open>try\<close>: when it throws, the promise of the callback is rejected and
  nothing handles the rejection; nothing is logged, and \<open>currentCommand\<close> stays as it is.
\<close>

definition capture_timeout :: "save_result \<Rightarrow> conn \<Rightarrow> conn" where
  "capture_timeout r s =
     (case currentCommand s of
        None \<Rightarrow> s
      | Some c \<Rightarrow>
          (case command_save r c of
             None \<Rightarrow> s\<lparr>unhandled := unhandled s @ [SaveFailed]\<rparr>
           | Some c' \<Rightarrow> s\<lparr>commands := (commands s)(c_id c' \<mapsto> c'), currentCommand := None\<rparr>))"

text \<open>The listeners for \<open>"user-disconnect"\<close> and \<open>"disconnect"\<close> of the socket.\<close>

definition user_disconnect :: "int \<Rightarrow> save_result \<Rightarrow> conn \<Rightarrow> conn" where
  "user_disconnect now r s = handleSessionEnd now r s"

definition socket_disconnect :: "int \<Rightarrow> save_result \<Rightarrow> conn \<Rightarrow> conn" where
  "socket_disconnect now r s = handleSessionEnd now r (s\<lparr>ssh_disposed := True\<rparr>)"

subsection \<open>Events of one connection\<close>

text \<open>
  The same handler is registered under three event names. An input event runs every
  registered input listener, in the order of registration, each up to its first
  \<open>await\<close>. \<open>Settle k\<close> is the completion of the save that the \<open>k\<close>-th suspended
  invocation awaits.
\<close>

datatype connect_name = ssh_connect | ssh_connect_enhanced | connect_ssh

datatype event =
    Connect connect_name connect_env jsval
  | SshInput "nat \<Rightarrow> input_env" jsstring
  | StreamData nat "8 word list"
  | StreamClose nat int save_result
  | StreamError nat
  | UserDisconnect int save_result
  | SocketDisconnect int save_result
  | CaptureTimeout save_result
  | Settle nat

fun dispatch_input :: "(nat \<Rightarrow> input_env) \<Rightarrow> jsstring \<Rightarrow> nat \<Rightarrow> input_handler list \<Rightarrow> conn \<Rightarrow> conn" where
  "dispatch_input envs input i [] s = s"
| "dispatch_input envs input i (h # hs) s =
     dispatch_input envs input (Suc i) hs (ssh_input h (envs i) input s)"

fun fire :: "conn \<Rightarrow> event \<Rightarrow> conn" where
  "fire s (Connect name env connectionData) = handleSSHConnect env connectionData s"
| "fire s (SshInput envs input) = dispatch_input envs input 0 (input_handlers s) s"
| "fire s (StreamData h data) =
     (if h < length (streams s) \<and> \<not> destroyed (streams s ! h) then stream_on_data data s else s)"
| "fire s (StreamClose h now r) =
     (if h < length (streams s) \<and> \<not> destroyed (streams s ! h)
      then stream_on_close now r
             (s\<lparr>streams := (streams s)[h := (streams s ! h)\<lparr>destroyed := True\<rparr>]\<rparr>)
      else s)"
| "fire s (StreamError h) = (if h < length (streams s) then stream_on_error s else s)"
| "fire s (UserDisconnect now r) = user_disconnect now r s"
| "fire s (SocketDisconnect now r) = socket_disconnect now r s"
| "fire s (CaptureTimeout r) =
     (if 0 < timers s then capture_timeout r (s\<lparr>timers := timers s - 1\<rparr>) else s)"
| "fire s (Settle k) = settle k s"

definition run :: "conn \<Rightarrow> event list \<Rightarrow> conn" where
  "run s evs = foldl fire s evs"

text \<open>
  \<open>fire\<close> is what the handlers do with an event. The program installs no handler for
  unhandled rejections, and the runtime (Node 15 and later, by default) ends the process
  at the first one: the process serves an event only while no rejection is unhandled.
\<close>

definition serve :: "conn \<Rightarrow> event \<Rightarrow> conn" where
  "serve s ev = (if unhandled s = [] then fire s ev else s)"

definition served :: "conn \<Rightarrow> event list \<Rightarrow> conn" where
  "served s evs = foldl serve s evs"

section \<open>The client-side connection controller (the terminal page)\<close>

text \<open>
  The module-level variables of the page (\<open>globalTerminalInstance\<close>, \<open>globalSocketInstance\<close>,
  \<open>globalIsInitialized\<close>, ...), the refs and state of the component, and every Terminal
  and socket object constructed so far; an instance variable holds an index into these
  lists. \<open>terminalRef\<close> tells whether the DOM node of the terminal is mounted. A socket
  keeps the three values of the query that \<open>io\<close> was called with.
\<close>

record terminal_widget =
  t_disposed :: bool
  t_opened :: bool

record client_socket =
  k_connected :: bool
  k_listeners :: nat
  k_closed :: bool
  k_userId :: jsval
  k_userName :: jsval
  k_userRole :: jsval

datatype connection_status = St_initializing | St_connecting | St_connected | St_ssh_connected
  | St_reconnecting | St_disconnected | St_error

record tab =
  globalTerminalInstance :: "nat option"
  globalSocketInstance :: "nat option"
  globalIsInitialized :: bool
  globalFitAddon :: bool
  globalInputHandler :: bool
  globalKeyHandler :: bool
  globalEventListenersAttached :: bool
  terminals :: "terminal_widget list"
  client_sockets :: "client_socket list"
  terminalRef :: bool
  terminalInstance :: "nat option"
  socketRef :: "nat option"
  isInitializedRef :: bool
  isConnected :: bool
  connectionStatus :: connection_status
  connectionTimeout :: bool
  resize_listeners :: nat

definition new_tab :: "bool \<Rightarrow> tab" where
  "new_tab mounted =
     \<lparr>globalTerminalInstance = None, globalSocketInstance = None, globalIsInitialized = False,
      globalFitAddon = False, globalInputHandler = False, globalKeyHandler = False,
      globalEventListenersAttached = False, terminals = [], client_sockets = [],
      terminalRef = mounted, terminalInstance = None, socketRef = None,
      isInitializedRef = False, isConnected = False, connectionStatus = St_initializing,
      connectionTimeout = False, resize_listeners = 0\<rparr>"

text \<open>\<open>globalTerminalInstance && !globalTerminalInstance.isDisposed\<close>.\<close>

definition terminal_usable :: "tab \<Rightarrow> bool" where
  "terminal_usable t =
     (case globalTerminalInstance t of
        None \<Rightarrow> False
      | Some i \<Rightarrow> i < length (terminals t) \<and> \<not> t_disposed (terminals t ! i))"

text \<open>\<open>globalSocketInstance?.connected\<close>, as a boolean.\<close>

definition socket_connected :: "tab \<Rightarrow> bool" where
  "socket_connected t =
     (case globalSocketInstance t of
        None \<Rightarrow> False
      | Some k \<Rightarrow> k < length (client_sockets t) \<and> k_connected (client_sockets t ! k))"

text \<open>\<open>socket.removeAllListeners(); socket.disconnect()\<close> on the global socket, if any.\<close>

definition drop_global_socket :: "tab \<Rightarrow> tab" where
  "drop_global_socket t =
     (case globalSocketInstance t of
        None \<Rightarrow> t
      | Some k \<Rightarrow>
          if k < length (client_sockets t)
          then t\<lparr>client_sockets := (client_sockets t)[k :=
                    (client_sockets t ! k)\<lparr>k_listeners := 0, k_connected := False,
                                            k_closed := True\<rparr>]\<rparr>
          else t)"

text \<open>
  \<open>setupSocketEventListeners\<close> attaches the seven listeners of the page to the socket
  unless the global flag says that they are attached already.
\<close>

definition setupSocketEventListeners :: "nat \<Rightarrow> tab \<Rightarrow> tab" where
  "setupSocketEventListeners k t =
     (if globalEventListenersAttached t then t
      else if k < length (client_sockets t)
      then t\<lparr>globalEventListenersAttached := True,
             client_sockets := (client_sockets t)[k :=
               (client_sockets t ! k)\<lparr>k_listeners := k_listeners (client_sockets t ! k) + 7\<rparr>]\<rparr>
      else t\<lparr>globalEventListenersAttached := True\<rparr>)"

text \<open>\<open>setupTerminalInputHandlers\<close> disposes the old handlers and attaches new ones.\<close>

definition setupTerminalInputHandlers :: "tab \<Rightarrow> tab" where
  "setupTerminalInputHandlers t = t\<lparr>globalInputHandler := True, globalKeyHandler := True\<rparr>"

text \<open>
  \<open>initializeTerminal\<close>. A call that finds the global flag set returns at once. Otherwise
  the flag is set, the Terminal is built, the old global socket (if any) is shut, and
  the query of the new socket is read from \<open>data\<close>: reading \<open>data.userId\<close> throws a
  TypeError when \<open>data\<close> is \<open>undefined\<close> or \<open>null\<close>, before \<open>io\<close> is called. Nothing
  in the function catches it; the error carries the state reached.
\<close>

definition initializeTerminal :: "jsval \<Rightarrow> tab \<Rightarrow> (error \<times> tab) + tab" where
  "initializeTerminal data t =
     (if globalIsInitialized t then
        Inr (if terminal_usable t \<and> terminalRef t
             then t\<lparr>terminalInstance := globalTerminalInstance t,
                    socketRef := globalSocketInstance t,
                    isConnected := socket_connected t,
                    connectionStatus :=
                      (if socket_connected t then St_ssh_connected else St_connected)\<rparr>
             else t)
      else
        let t1 = t\<lparr>globalIsInitialized := True, isInitializedRef := True,
                    connectionStatus := St_connecting, globalFitAddon := True\<rparr>;
            term = length (terminals t1);
            t2 = t1\<lparr>terminals := terminals t1 @ [\<lparr>t_disposed = False, t_opened = False\<rparr>]\<rparr>;
            t3 = (if terminalRef t2
                  then t2\<lparr>terminals := (terminals t2)[term := \<lparr>t_disposed = False, t_opened = True\<rparr>],
                          globalTerminalInstance := Some term,
                          terminalInstance := Some term\<rparr>
                  else t2);
            t4 = drop_global_socket t3
        in
        if nullish data then Inl (TypeError, t4)
        else
          let newSocket = length (client_sockets t4);
              t5 = t4\<lparr>client_sockets := client_sockets t4 @
                          [\<lparr>k_connected = False, k_listeners = 0, k_closed = False,
                            k_userId = orElse (getProp data ''userId'') (JStr []),
                            k_userName = orElse (getProp data ''userName'') (JStr []),
                            k_userRole = orElse (getProp data ''userRole'') (JStr (js ''student''))\<rparr>],
                      globalSocketInstance := Some newSocket,
                      socketRef := Some newSocket\<rparr>;
              t6 = setupTerminalInputHandlers (setupSocketEventListeners newSocket t5)
          in Inr (t6\<lparr>resize_listeners := Suc (resize_listeners t6)\<rparr>))"

text \<open>The state that a call leaves, returned or thrown.\<close>

definition reached :: "(error \<times> tab) + tab \<Rightarrow> tab" where
  "reached r = (case r of Inl (e, t) \<Rightarrow> t | Inr t \<Rightarrow> t)"

text \<open>\<open>cleanupConnection\<close>, the teardown of the page.\<close>

definition cleanupConnection :: "tab \<Rightarrow> tab" where
  "cleanupConnection t =
     (let t1 = t\<lparr>connectionTimeout := False, globalInputHandler := False,
                  globalKeyHandler := False\<rparr>;
          t2 = (drop_global_socket t1)\<lparr>globalSocketInstance := None\<rparr>;
          t3 = (case globalTerminalInstance t2 of
                  None \<Rightarrow> t2
                | Some i \<Rightarrow>
                    if terminal_usable t2
                    then t2\<lparr>terminals := (terminals t2)[i := (terminals t2 ! i)\<lparr>t_disposed := True\<rparr>],
                            globalTerminalInstance := None\<rparr>
                    else t2)
      in t3\<lparr>globalIsInitialized := False, globalFitAddon := False,
            globalEventListenersAttached := False\<rparr>)"

text \<open>The widgets and sockets that are alive.\<close>

definition live_terminals :: "tab \<Rightarrow> nat" where
  "live_terminals t = length (filter (\<lambda>w. \<not> t_disposed w) (terminals t))"

definition live_sockets :: "tab \<Rightarrow> nat" where
  "live_sockets t = length (filter (\<lambda>k. \<not> k_closed k) (client_sockets t))"

section \<open>Notions used to state the properties\<close>

text \<open>The document that a finalize at time \<open>t\<close> leaves in memory.\<close>

definition finalized :: "int \<Rightarrow> ServerSession \<Rightarrow> ServerSession" where
  "finalized t doc =
     doc\<lparr>logout_time := Some t, session_duration := Some ((t - login_time doc) div 1000),
         status := Disconnected\<rparr>"

text \<open>
  The duration of a session document agrees with its timestamps: \<open>0\<close>, the default of
  the schema, while there is no closing timestamp, and the whole seconds between
  creation and closing once there is one.
\<close>

definition duration_ok :: "ServerSession \<Rightarrow> bool" where
  "duration_ok d =
     (case logout_time d of
        None \<Rightarrow> session_duration d = Some 0
      | Some lo \<Rightarrow> session_duration d = Some ((lo - login_time d) div 1000))"

definition sessions_ok :: "conn \<Rightarrow> bool" where
  "sessions_ok s =
     ((\<forall>d \<in> ran (sessions s). duration_ok d)
      \<and> (case currentSession s of None \<Rightarrow> True | Some d \<Rightarrow> duration_ok d))"

text \<open>A chunk that ends a line: it has a CR or an LF in it.\<close>

definition line_boundary :: "jsstring \<Rightarrow> bool" where
  "line_boundary input = (str_includes input 13 \<or> str_includes input 10)"



text \<open>
  Every input listener has a stream of its own among the streams opened so far (each
  accepted connect request opens one stream and registers one listener for it).
\<close>

definition listeners_ok :: "conn \<Rightarrow> bool" where
  "listeners_ok s =
     (distinct (map h_stream (input_handlers s))
      \<and> (\<forall>h \<in> set (input_handlers s). h_stream h < length (streams s)))"

text \<open>
  One chunk at a time: the input event of a chunk (meeting the same environment in every
  listener), then the completion of the save of its Command and of the save of the
  session, if the chunk has caused them (\<open>Settle\<close> changes nothing when no invocation is
  suspended).
\<close>

definition one_at_a_time :: "input_env \<Rightarrow> jsstring \<Rightarrow> event list" where
  "one_at_a_time env input = [SshInput (\<lambda>i. env) input, Settle 0, Settle 0]"

definition inputs :: "(input_env \<times> jsstring) list \<Rightarrow> event list" where
  "inputs xs = concat (map (\<lambda>(env, input). one_at_a_time env input) xs)"

text \<open>
  The Command documents with the ids issued between two states, in the order of their
  ids; \<open>None\<close> stands for a document that was built but not stored.
\<close>

definition issued_between :: "conn \<Rightarrow> conn \<Rightarrow> Command option list" where
  "issued_between s s' = map (commands s') [next_id s ..< next_id s']"

text \<open>The payloads of the \<open>"ssh-output"\<close> events among the emitted events, in order.\<close>

fun output_payloads :: "emit list \<Rightarrow> jsstring list" where
  "output_payloads [] = []"
| "output_payloads (SshOutput x # es) = x # output_payloads es"
| "output_payloads (e # es) = output_payloads es"

section \<open>Example inputs\<close>

text \<open>
  A connect request as the terminal page sends it (the user id has the form of an
  ObjectId), an environment in which everything outside the program succeeds, and the
  connection after that request has been served on a fresh connection with an empty
  store; \<open>session0\<close> is the session that it creates.
\<close>

definition user0 :: jsval where
  "user0 = JStr (js ''507f1f77bcf86cd799439011'')"

definition host0 :: jsval where
  "host0 = JStr (js ''10.0.0.5'')"

definition request0 :: jsval where
  "request0 =
     JObj [(''host'', host0), (''username'', JStr (js ''student'')),
           (''password'', JStr (js ''secret'')), (''port'', JNum 22),
           (''user'', JObj [(''id'', user0), (''name'', JStr (js ''Ann''))])]"

definition session0 :: ServerSession where
  "session0 = new_ServerSession 0 user0 host0 (JStr (js ''student'')) 0"

definition env_ok :: "int \<Rightarrow> connect_env" where
  "env_ok t =
     \<lparr>now_login = t, now_registry = t, connect_ok = True, session_saved = Saved,
      shell_ok = True\<rparr>"

definition saved_at :: "int \<Rightarrow> input_env" where
  "saved_at t = \<lparr>now_input = t, command_saved = Saved, session_resaved = Saved\<rparr>"

definition failing_at :: "int \<Rightarrow> input_env" where
  "failing_at t = \<lparr>now_input = t, command_saved = WriteError, session_resaved = Saved\<rparr>"

definition opened :: conn where
  "opened = fire (connection 1 Map.empty Map.empty Map.empty 0)
              (Connect ssh_connect (env_ok 0) request0)"

text \<open>
  The listener that the request has registered, the connection after \<open>ls\<close> was typed,
  and the connection after Enter was pressed then and the two saves have completed.
\<close>

definition listener0 :: input_handler where
  "listener0 = \<lparr>h_stream = 0, h_userData = extractUserData request0, h_host = host0\<rparr>"

definition typed_ls :: conn where
  "typed_ls = fire opened (SshInput (\<lambda>i. saved_at 1) (js ''ls''))"

definition entered_ls :: conn where
  "entered_ls = run typed_ls (one_at_a_time (saved_at 2) [13])"

text \<open>The connection data that the terminal page holds for that request.\<close>

definition page_data :: jsval where
  "page_data =
     JObj [(''host'', host0), (''username'', JStr (js ''student'')),
           (''password'', JStr (js ''secret'')), (''userId'', user0),
           (''userName'', JStr (js ''Ann'')), (''userRole'', JStr (js ''student''))]"

section \<open>The classifier\<close>

lemma command_classifyCommand: "command (classifyCommand c) = command c"
  by (simp add: classifyCommand_def Let_def)

lemma is_dangerous_classifyCommand: "is_dangerous (classifyCommand c) = is_dangerous c"
  by (simp add: classifyCommand_def Let_def)

lemma command_type_classifyCommand:
  "command_type (classifyCommand c) =
     (if test systemVerbs (trim (toLowerCase (command c))) then System
      else if test fileVerbs (trim (toLowerCase (command c))) then File
      else if test networkVerbs (trim (toLowerCase (command c))) then Network
      else if test processVerbs (trim (toLowerCase (command c))) then Process
      else Custom)"
  by (simp add: classifyCommand_def Let_def)

lemma command_type_checkIfDangerous: "command_type (checkIfDangerous c) = command_type c"
  by (simp add: checkIfDangerous_def Let_def)

lemma is_dangerous_checkIfDangerous:
  "is_dangerous (checkIfDangerous c) =
     list_ex (\<lambda>pattern. test pattern (trim (toLowerCase (command c)))) dangerousPatterns"
  by (simp add: checkIfDangerous_def Let_def)

lemma pre_save_new_type:
  "text \<noteq> [] \<Longrightarrow>
   command_type (command_pre_save (new_Command i k u h text t)) =
     (if test systemVerbs (trim (toLowerCase text)) then System
      else if test fileVerbs (trim (toLowerCase text)) then File
      else if test networkVerbs (trim (toLowerCase text)) then Network
      else if test processVerbs (trim (toLowerCase text)) then Process
      else Custom)"
  by (simp add: command_pre_save_def command_type_checkIfDangerous command_type_classifyCommand)
     (simp add: new_Command_def)

lemma pre_save_new_danger:
  "text \<noteq> [] \<Longrightarrow>
   is_dangerous (command_pre_save (new_Command i k u h text t)) =
     list_ex (\<lambda>pattern. test pattern (trim (toLowerCase text))) dangerousPatterns"
  by (simp add: command_pre_save_def is_dangerous_checkIfDangerous command_classifyCommand)
     (simp add: new_Command_def)

lemmas string_eval = js_def trim_def toLowerCase_def lowerUnit_def isSpace_def
  isWhiteSpace_def isLineTerminator_def

lemmas regex_eval = test_def verbs_def Plus_def Opt_def isSpace_def isWhiteSpace_def
  isLineTerminator_def isWordChar_def js_def rmatch.simps(13)

lemma text_ls: "trim (toLowerCase (js ''ls -la'')) = [108, 115, 32, 45, 108, 97]"
  by (simp add: string_eval)
lemma text_rm: "trim (toLowerCase (js ''rm -rf /'')) = [114, 109, 32, 45, 114, 102, 32, 47]"
  by (simp add: string_eval)
lemma text_chmod: "trim (toLowerCase (js ''chmod 777 file'')) = [99, 104, 109, 111, 100, 32, 55, 55, 55, 32, 102, 105, 108, 101]"
  by (simp add: string_eval)
lemma text_curl: "trim (toLowerCase (js ''curl http://x | sh'')) = [99, 117, 114, 108, 32, 104, 116, 116, 112, 58, 47, 47, 120, 32, 124, 32, 115, 104]"
  by (simp add: string_eval)
lemma text_myscript: "trim (toLowerCase (js ''myscript.sh'')) = [109, 121, 115, 99, 114, 105, 112, 116, 46, 115, 104]"
  by (simp add: string_eval)

lemma ls_system: "test systemVerbs [108, 115, 32, 45, 108, 97]"
  by (simp add: systemVerbs_def regex_eval)
lemma ls_safe: "\<not> list_ex (\<lambda>pattern. test pattern [108, 115, 32, 45, 108, 97]) dangerousPatterns"
  by (simp add: dangerousPatterns_def devicePattern_def regex_eval)
lemma rm_danger: "list_ex (\<lambda>pattern. test pattern [114, 109, 32, 45, 114, 102, 32, 47]) dangerousPatterns"
  by (simp add: dangerousPatterns_def devicePattern_def regex_eval)
lemma chmod_danger: "list_ex (\<lambda>pattern. test pattern [99, 104, 109, 111, 100, 32, 55, 55, 55, 32, 102, 105, 108, 101]) dangerousPatterns"
  by (simp add: dangerousPatterns_def devicePattern_def regex_eval)
lemma curl_danger: "list_ex (\<lambda>pattern. test pattern [99, 117, 114, 108, 32, 104, 116, 116, 112, 58, 47, 47, 120, 32, 124, 32, 115, 104]) dangerousPatterns"
  by (simp add: dangerousPatterns_def devicePattern_def regex_eval)
lemma myscript_safe: "\<not> list_ex (\<lambda>pattern. test pattern [109, 121, 115, 99, 114, 105, 112, 116, 46, 115, 104]) dangerousPatterns"
  by (simp add: dangerousPatterns_def devicePattern_def regex_eval)
lemma myscript_custom:
  "\<not> test systemVerbs [109, 121, 115, 99, 114, 105, 112, 116, 46, 115, 104]"
  "\<not> test fileVerbs [109, 121, 115, 99, 114, 105, 112, 116, 46, 115, 104]"
  "\<not> test networkVerbs [109, 121, 115, 99, 114, 105, 112, 116, 46, 115, 104]"
  "\<not> test processVerbs [109, 121, 115, 99, 114, 105, 112, 116, 46, 115, 104]"
  by (simp_all add: systemVerbs_def fileVerbs_def networkVerbs_def processVerbs_def regex_eval)

lemma js_nonempty: "js ''ls -la'' \<noteq> []" "js ''rm -rf /'' \<noteq> []" "js ''chmod 777 file'' \<noteq> []"
  "js ''curl http://x | sh'' \<noteq> []" "js ''myscript.sh'' \<noteq> []"
  by (simp_all add: js_def)

text \<open>
  Claim C5. The classifier, run by the pre-save middleware on a new Command, maps
  \<open>ls -la\<close> to category \<open>system\<close> with the danger flag false; it sets the danger flag for
  \<open>rm -rf /\<close>, \<open>chmod 777 file\<close> and \<open>curl http://x | sh\<close>; and it maps
  \<open>myscript.sh\<close> to category \<open>custom\<close> with the danger flag false.
\<close>

theorem classifier_examples:
  "command_type (command_pre_save (new_Command i k u h (js ''ls -la'') t)) = System
   \<and> \<not> is_dangerous (command_pre_save (new_Command i k u h (js ''ls -la'') t))
   \<and> is_dangerous (command_pre_save (new_Command i k u h (js ''rm -rf /'') t))
   \<and> is_dangerous (command_pre_save (new_Command i k u h (js ''chmod 777 file'') t))
   \<and> is_dangerous (command_pre_save (new_Command i k u h (js ''curl http://x | sh'') t))
   \<and> command_type (command_pre_save (new_Command i k u h (js ''myscript.sh'') t)) = Custom
   \<and> \<not> is_dangerous (command_pre_save (new_Command i k u h (js ''myscript.sh'') t))"
  by (simp only: pre_save_new_type pre_save_new_danger js_nonempty text_ls text_rm text_chmod
        text_curl text_myscript ls_system ls_safe rm_danger chmod_danger curl_danger
        myscript_safe myscript_custom if_True if_False not_False_eq_True simp_thms)

section \<open>The device-redirect pattern\<close>

lemma rmatch_lit:
  "w \<noteq> [] \<Longrightarrow> \<exists>p'. (p', t) \<in> set (rmatch (lit w) (p, w @ t))"
proof (induction w arbitrary: p rule: lit.induct)
  case 1
  then show ?case by simp
next
  case (2 c)
  show ?case by simp
next
  case (3 c v va)
  from "3.IH" [of "Some c"] obtain p' where "(p', t) \<in> set (rmatch (lit (v # va)) (Some c, (v # va) @ t))"
    by auto
  then show ?case by auto
qed

lemma rmatch_seq:
  assumes "\<exists>p1. (p1, t1) \<in> set (rmatch a (p, s))"
    and "\<And>p1. \<exists>p2. (p2, t2) \<in> set (rmatch b (p1, t1))"
  shows "\<exists>p2. (p2, t2) \<in> set (rmatch (Seq a b) (p, s))"
proof -
  from assms(1) obtain p1 where 1: "(p1, t1) \<in> set (rmatch a (p, s))" by blast
  from assms(2) obtain p2 where 2: "(p2, t2) \<in> set (rmatch b (p1, t1))" by blast
  from 1 2 have "(p2, t2) \<in> set (rmatch (Seq a b) (p, s))"
    by (simp only: rmatch.simps set_concat set_map) blast
  then show ?thesis by blast
qed

lemma rmatch_Star_refl: "st \<in> set (rmatch (Star a) st)"
  by (subst rmatch.simps) (rule list.set_intros(1))

lemma rmatch_Star_step:
  assumes "st1 \<in> set (rmatch a st)" and "length (snd st1) < length (snd st)"
    and "st2 \<in> set (rmatch (Star a) st1)"
  shows "st2 \<in> set (rmatch (Star a) st)"
proof -
  have "st1 \<in> set (filter (\<lambda>st'. length (snd st') < length (snd st)) (rmatch a st))"
    using assms(1,2) by (simp only: set_filter mem_Collect_eq)
  with assms(3)
  have "st2 \<in> set (concat (map (rmatch (Star a))
                    (filter (\<lambda>st'. length (snd st') < length (snd st)) (rmatch a st))))"
    by (simp only: set_concat set_map) blast
  then show ?thesis
    by (subst rmatch.simps) (rule list.set_intros(2))
qed

lemma rmatch_star_dot:
  "\<forall>x\<in>set m. \<not> isLineTerminator x \<Longrightarrow> \<exists>p'. (p', t) \<in> set (rmatch (Star Dot) (p, m @ t))"
proof (induction m arbitrary: p)
  case Nil
  have "(p, t) \<in> set (rmatch (Star Dot) (p, t))" by (rule rmatch_Star_refl)
  then show ?case by (simp only: append_Nil) blast
next
  case (Cons x m)
  from Cons.prems have x: "\<not> isLineTerminator x" and m: "\<forall>x\<in>set m. \<not> isLineTerminator x"
    by simp_all
  from Cons.IH [OF m, of "Some x"] obtain p' where
    1: "(p', t) \<in> set (rmatch (Star Dot) (Some x, m @ t))" by blast
  have 2: "(Some x, m @ t) \<in> set (rmatch Dot (p, x # m @ t))" using x by simp
  have "(p', t) \<in> set (rmatch (Star Dot) (p, x # m @ t))"
    by (rule rmatch_Star_step [OF 2 _ 1]) simp
  then show ?case by (simp only: append_Cons) blast
qed

lemma starts_mem:
  "(if a = [] then p else Some (last a), s) \<in> set (starts p (a @ s))"
proof (induction a arbitrary: p)
  case Nil
  show ?case by (cases s) auto
next
  case (Cons x a)
  from Cons.IH [of "Some x"] show ?case by auto
qed

lemma test_at:
  assumes "\<And>p. rmatch r (p, s) \<noteq> []"
  shows "test r (a @ s)"
  unfolding test_def list_ex_iff
  using starts_mem [of a None s] assms by blast

lemma rmatch_device_word:
  assumes "d \<in> {js ''null'', js ''zero'', js ''random'', js ''urandom''}"
  shows "\<exists>p'. (p', t) \<in> set (rmatch (alts [lit (js ''null''), lit (js ''zero''), lit (js ''random''),
                                             lit (js ''urandom'')]) (p, d @ t))"
proof -
  have ne: "d \<noteq> []" using assms by (auto simp: js_def)
  from rmatch_lit [OF ne, of t p] obtain p' where "(p', t) \<in> set (rmatch (lit d) (p, d @ t))"
    by blast
  with assms have "(p', t) \<in> set (rmatch (alts [lit (js ''null''), lit (js ''zero''), lit (js ''random''),
                                             lit (js ''urandom'')]) (p, d @ t))"
    by auto
  then show ?thesis by blast
qed

lemma devicePattern_matches:
  assumes d: "d \<in> {js ''null'', js ''zero'', js ''random'', js ''urandom''}"
    and m: "\<forall>x\<in>set m. \<not> isLineTerminator x"
  shows "test devicePattern (a @ js ''/dev/'' @ d @ m @ [62] @ b)"
proof (rule test_at)
  fix p
  have "\<exists>p'. (p', b) \<in> set (rmatch devicePattern (p, js ''/dev/'' @ d @ m @ [62] @ b))"
    unfolding devicePattern_def seqs.simps
  proof (intro rmatch_seq)
    show "\<exists>p1. (p1, d @ m @ [62] @ b) \<in> set (rmatch (lit (js ''/dev/'')) (p, js ''/dev/'' @ d @ m @ [62] @ b))"
      by (rule rmatch_lit) (simp add: js_def)
    show "\<exists>p2. (p2, m @ [62] @ b) \<in> set (rmatch (alts [lit (js ''null''), lit (js ''zero''), lit (js ''random''),
                                             lit (js ''urandom'')]) (p1, d @ m @ [62] @ b))" for p1
      by (rule rmatch_device_word [OF d])
    show "\<exists>p2. (p2, [62] @ b) \<in> set (rmatch (Star Dot) (p1, m @ [62] @ b))" for p1
      by (rule rmatch_star_dot [OF m])
    show "\<exists>p2. (p2, b) \<in> set (rmatch (Chr 62) (p1, [62] @ b))" for p1
      by simp
  qed
  then show "rmatch devicePattern (p, js ''/dev/'' @ d @ m @ [62] @ b) \<noteq> []"
    by auto
qed

lemma devicePattern_dangerous: "test devicePattern cmd \<Longrightarrow> list_ex (\<lambda>pattern. test pattern cmd) dangerousPatterns"
  by (simp add: dangerousPatterns_def)

lemma trim_Nil: "trim (toLowerCase []) = []"
  by (simp add: trim_def toLowerCase_def)

text \<open>
  Claim C10, as amended. The last pattern is \<open>/dev/(null|zero|random|urandom)\<close>, then
  \<open>.*\<close>, then \<open>>\<close>, and \<open>.\<close> matches no line terminator. So a new command whose
  lower-cased, trimmed text has one of the four device names followed later by \<open>>\<close>,
  with no line terminator (LF, CR, U+2028, U+2029) between the two, gets the danger
  flag from the pre-save middleware, whatever the other patterns say.
\<close>

theorem device_redirect_dangerous:
  assumes "trim (toLowerCase (command c)) = a @ js ''/dev/'' @ d @ m @ [62] @ b"
    and "d \<in> {js ''null'', js ''zero'', js ''random'', js ''urandom''}"
    and "\<forall>x\<in>set m. \<not> isLineTerminator x"
    and "isNew c"
  shows "is_dangerous (command_pre_save c)"
proof -
  have "command c \<noteq> []"
  proof
    assume "command c = []"
    with assms(1) trim_Nil show False by (simp add: js_def)
  qed
  moreover have "test devicePattern (trim (toLowerCase (command c)))"
    unfolding assms(1) by (rule devicePattern_matches [OF assms(2,3)])
  ultimately show ?thesis
    using assms(4)
    by (simp add: command_pre_save_def is_dangerous_checkIfDangerous command_classifyCommand
        devicePattern_dangerous)
qed

lemma text_dev_null_log:
  "trim (toLowerCase (js ''cat /dev/null > log'')) = js ''cat '' @ js ''/dev/'' @ js ''null'' @ [32] @ [62] @ js '' log''"
  by (simp add: string_eval)

theorem device_redirect_dangerous_witness:
  "is_dangerous (command_pre_save (new_Command 0 0 JNull JNull (js ''cat /dev/null > log'') 0))"
proof -
  have 1: "command (new_Command 0 0 JNull JNull (js ''cat /dev/null > log'') 0) = js ''cat /dev/null > log''"
    by (simp add: new_Command_def)
  have 2: "trim (toLowerCase (command (new_Command 0 0 JNull JNull (js ''cat /dev/null > log'') 0)))
           = js ''cat '' @ js ''/dev/'' @ js ''null'' @ [32] @ [62] @ js '' log''"
    unfolding 1 by (rule text_dev_null_log)
  have 3: "js ''null'' \<in> {js ''null'', js ''zero'', js ''random'', js ''urandom''}" by simp
  have 4: "\<forall>x\<in>set [32::nat]. \<not> isLineTerminator x" by (simp add: isLineTerminator_def)
  have 5: "isNew (new_Command 0 0 JNull JNull (js ''cat /dev/null > log'') 0)"
    by (simp add: new_Command_def)
  show ?thesis by (rule device_redirect_dangerous [OF 2 3 4 5])
qed

lemma text_sep: "trim (toLowerCase (js ''cat /dev/null'' @ [8232] @ js ''> log'')) =
   [99, 97, 116, 32, 47, 100, 101, 118, 47, 110, 117, 108, 108, 8232, 62, 32, 108, 111, 103]"
  by (simp add: string_eval)

lemma sep_safe: "\<not> list_ex (\<lambda>pattern. test pattern [99, 97, 116, 32, 47, 100, 101, 118, 47, 110, 117, 108, 108, 8232, 62, 32, 108, 111, 103]) dangerousPatterns"
  by (simp add: dangerousPatterns_def devicePattern_def regex_eval)

lemma sep_nonempty: "js ''cat /dev/null'' @ [8232] @ js ''> log'' \<noteq> []"
  by (simp add: js_def)

text \<open>
  Claim C10 as stated fails: with a line separator between the device name and the
  \<open>>\<close>, the text still has \<open>/dev/null\<close> followed later by \<open>>\<close>, and the flag stays
  false. (A line separator is neither CR nor LF, so the keystroke buffer keeps it inside
  one command.)
\<close>

theorem device_redirect_counterexample:
  "trim (toLowerCase (js ''cat /dev/null'' @ [8232] @ js ''> log''))
     = js ''cat '' @ js ''/dev/null'' @ [8232] @ js ''>'' @ js '' log''
   \<and> \<not> is_dangerous (command_pre_save
          (new_Command 0 0 JNull JNull (js ''cat /dev/null'' @ [8232] @ js ''> log'') 0))"
proof
  show "trim (toLowerCase (js ''cat /dev/null'' @ [8232] @ js ''> log''))
     = js ''cat '' @ js ''/dev/null'' @ [8232] @ js ''>'' @ js '' log''"
    unfolding text_sep by (simp add: js_def)
  show "\<not> is_dangerous (command_pre_save
          (new_Command 0 0 JNull JNull (js ''cat /dev/null'' @ [8232] @ js ''> log'') 0))"
    by (simp only: pre_save_new_danger [OF sep_nonempty] text_sep sep_safe not_False_eq_True)
qed

section \<open>Connect requests\<close>

lemma nullish_getProp: "nullish v \<Longrightarrow> getProp v k = JUndefined"
  by (cases v) simp_all

lemma connect_try_rejected:
  assumes "\<not> truthy (getProp connectionData ''host'')
           \<or> \<not> truthy (getProp connectionData ''username'')
           \<or> \<not> truthy (getProp connectionData ''password'')
           \<or> \<not> truthy (getProp (extractUserData connectionData) ''id'')"
  shows "handleSSHConnect_try env connectionData s = Inl (TypeError, s)
         \<or> handleSSHConnect_try env connectionData s = Inl (MissingParameters, s)
         \<or> handleSSHConnect_try env connectionData s = Inl (InvalidUserData, s)"
  using assms by (auto simp: handleSSHConnect_try_def Let_def)

text \<open>
  Claim C6. A connect request (under any of the three event names) in which the host,
  the login name or the password is missing, or in which no user id can be read from any
  of the four accepted shapes of user data, creates no Session: the state of the
  connection is what it was, but for one \<open>"ssh-error"\<close> event sent to the client and the
  error logged; the store, the tracked session and the registry are unchanged.
\<close>

theorem connect_rejected:
  assumes "\<not> truthy (getProp connectionData ''host'')
           \<or> \<not> truthy (getProp connectionData ''username'')
           \<or> \<not> truthy (getProp connectionData ''password'')
           \<or> \<not> truthy (getProp (extractUserData connectionData) ''id'')"
  shows "(\<exists>e. fire s (Connect name env connectionData)
               = s\<lparr>emitted := emitted s @ [SshError e], logged := logged s @ [e]\<rparr>)
         \<and> sessions (fire s (Connect name env connectionData)) = sessions s
         \<and> currentSession (fire s (Connect name env connectionData)) = currentSession s
         \<and> activeSessions (fire s (Connect name env connectionData)) = activeSessions s"
  using connect_try_rejected [OF assms, of env s]
  by (auto simp: handleSSHConnect_def)

theorem connect_rejected_witness:
  "(\<exists>e. fire (connection 7 Map.empty Map.empty Map.empty 0)
          (Connect ssh_connect (env_ok 0)
             (JObj [(''host'', JStr (js ''10.0.0.5'')), (''username'', JStr (js ''root'')),
                    (''userId'', JStr (js ''u1''))]))
        = (connection 7 Map.empty Map.empty Map.empty 0)
            \<lparr>emitted := emitted (connection 7 Map.empty Map.empty Map.empty 0) @ [SshError e],
             logged := logged (connection 7 Map.empty Map.empty Map.empty 0) @ [e]\<rparr>)
   \<and> sessions (fire (connection 7 Map.empty Map.empty Map.empty 0)
          (Connect ssh_connect (env_ok 0)
             (JObj [(''host'', JStr (js ''10.0.0.5'')), (''username'', JStr (js ''root'')),
                    (''userId'', JStr (js ''u1''))]))) = Map.empty"
proof -
  have "\<not> truthy (getProp (JObj [(''host'', JStr (js ''10.0.0.5'')), (''username'', JStr (js ''root'')),
                    (''userId'', JStr (js ''u1''))]) ''host'')
           \<or> \<not> truthy (getProp (JObj [(''host'', JStr (js ''10.0.0.5'')), (''username'', JStr (js ''root'')),
                    (''userId'', JStr (js ''u1''))]) ''username'')
           \<or> \<not> truthy (getProp (JObj [(''host'', JStr (js ''10.0.0.5'')), (''username'', JStr (js ''root'')),
                    (''userId'', JStr (js ''u1''))]) ''password'')
           \<or> \<not> truthy (getProp (extractUserData (JObj [(''host'', JStr (js ''10.0.0.5'')), (''username'', JStr (js ''root'')),
                    (''userId'', JStr (js ''u1''))])) ''id'')"
    by simp
  from connect_rejected [OF this, of "connection 7 Map.empty Map.empty Map.empty 0" ssh_connect "env_ok 0"]
  show ?thesis by (simp add: connection_def)
qed

section \<open>Session documents\<close>

lemma session_pre_save_ok: "duration_ok d \<Longrightarrow> session_pre_save d = d"
  by (cases "logout_time d") (auto simp: duration_ok_def session_pre_save_def)

lemma duration_ok_new [simp]: "duration_ok (new_ServerSession oid uid host username now)"
  by (simp add: duration_ok_def new_ServerSession_def)

lemma duration_ok_finalized [simp]: "duration_ok (finalized t d)"
  by (simp add: duration_ok_def finalized_def)

lemma duration_ok_push [simp]:
  "duration_ok (d\<lparr>commands_executed := x\<rparr>) = duration_ok d"
  by (simp add: duration_ok_def split: option.splits)

lemma finalized_fields [simp]:
  "s_id (finalized t d) = s_id d"
  "login_time (finalized t d) = login_time d"
  "logout_time (finalized t d) = Some t"
  "session_duration (finalized t d) = Some ((t - login_time d) div 1000)"
  "status (finalized t d) = Disconnected"
  "commands_executed (finalized t d) = commands_executed d"
  by (simp_all add: finalized_def)

lemma finalized_finalized [simp]: "finalized t2 (finalized t1 d) = finalized t2 d"
  by (simp add: finalized_def)

lemma session_save_ok:
  assumes "currentSession s = Some d" and "duration_ok d"
  shows "session_save r s =
     (case r of
        Saved \<Rightarrow> Inr (s\<lparr>currentSession := Some d, sessions := (sessions s)(s_id d \<mapsto> d)\<rparr>)
      | Invalid \<Rightarrow> Inl (SaveFailed, s)
      | WriteError \<Rightarrow> Inl (SaveFailed, s\<lparr>currentSession := Some d\<rparr>))"
  using assms by (simp add: session_save_def session_pre_save_ok split: save_result.splits)

lemma handleSessionEnd_None: "currentSession s = None \<Longrightarrow> handleSessionEnd t r s = s"
  by (simp add: handleSessionEnd_def)

lemma handleSessionEnd_Some:
  assumes "currentSession s = Some d"
  shows "handleSessionEnd t r s =
     (if r = Saved
      then s\<lparr>currentSession := Some (finalized t d),
             sessions := (sessions s)(s_id d \<mapsto> finalized t d),
             activeSessions := (activeSessions s)(socket_id s := None)\<rparr>
      else s\<lparr>currentSession := Some (finalized t d), logged := logged s @ [SaveFailed]\<rparr>)"
proof -
  have "session_save r (s\<lparr>currentSession := Some (finalized t d)\<rparr>) =
     (case r of
        Saved \<Rightarrow> Inr (s\<lparr>currentSession := Some (finalized t d),
                        sessions := (sessions s)(s_id d \<mapsto> finalized t d)\<rparr>)
      | Invalid \<Rightarrow> Inl (SaveFailed, s\<lparr>currentSession := Some (finalized t d)\<rparr>)
      | WriteError \<Rightarrow> Inl (SaveFailed, s\<lparr>currentSession := Some (finalized t d)\<rparr>))"
    by (subst session_save_ok [where d = "finalized t d"]) (simp_all split: save_result.splits)
  then show ?thesis
    using assms
    by (cases r) (simp_all add: handleSessionEnd_def Let_def finalized_def [symmetric])
qed

text \<open>
  Claim C1, as amended. \<open>handleSessionEnd\<close> has no single-use guard: it runs its body
  whenever a session is tracked, and the listeners of the stream's \<open>"close"\<close>, of
  \<open>"user-disconnect"\<close> and of \<open>"disconnect"\<close> all call it. A second call leaves the status
  \<open>disconnected\<close> and the registry entry removed, but it sets the closing timestamp to the
  time of the second call, recomputes the duration from it, and writes the document
  again when its save succeeds.
\<close>

theorem finalize_twice:
  assumes "currentSession s = Some doc"
  shows "currentSession (handleSessionEnd t2 r2 (handleSessionEnd t1 r1 s)) = Some (finalized t2 doc)
       \<and> status (finalized t2 doc) = status (finalized t1 doc)
       \<and> logout_time (finalized t2 doc) = Some t2
       \<and> session_duration (finalized t2 doc) = Some ((t2 - login_time doc) div 1000)
       \<and> (r2 = Saved \<longrightarrow>
            sessions (handleSessionEnd t2 r2 (handleSessionEnd t1 r1 s)) (s_id doc)
              = Some (finalized t2 doc))
       \<and> (r1 = Saved \<or> r2 = Saved \<longrightarrow>
            activeSessions (handleSessionEnd t2 r2 (handleSessionEnd t1 r1 s)) (socket_id s) = None)"
proof -
  have 1: "currentSession (handleSessionEnd t1 r1 s) = Some (finalized t1 doc)"
    using assms by (simp add: handleSessionEnd_Some)
  have 2: "socket_id (handleSessionEnd t1 r1 s) = socket_id s"
    using assms by (simp add: handleSessionEnd_Some)
  have 3: "r1 = Saved \<Longrightarrow> activeSessions (handleSessionEnd t1 r1 s) (socket_id s) = None"
    using assms by (simp add: handleSessionEnd_Some)
  show ?thesis
    using 2 3 by (auto simp: handleSessionEnd_Some [OF 1])
qed

lemma sessions_ok_iff:
  "sessions_ok s \<longleftrightarrow>
     (\<forall>k d. sessions s k = Some d \<longrightarrow> duration_ok d)
     \<and> (\<forall>d. currentSession s = Some d \<longrightarrow> duration_ok d)"
  by (auto simp: sessions_ok_def ran_def split: option.splits)

lemma new_ServerSession_fields [simp]:
  "s_id (new_ServerSession i a b c t) = i"
  "login_time (new_ServerSession i a b c t) = t"
  "logout_time (new_ServerSession i a b c t) = None"
  "session_duration (new_ServerSession i a b c t) = Some 0"
  "status (new_ServerSession i a b c t) = Active"
  "commands_executed (new_ServerSession i a b c t) = []"
  by (simp_all add: new_ServerSession_def)

lemma truthy_getProp: "truthy (getProp v k) \<Longrightarrow> truthy v \<and> \<not> nullish v"
  by (cases v) simp_all

lemma handleSSHConnect_try_accepted:
  assumes "truthy (getProp cd ''host'')" and "truthy (getProp cd ''username'')"
    and "truthy (getProp cd ''password'')"
    and "truthy (getProp (extractUserData cd) ''id'')"
    and "connect_ok env"
  shows "handleSSHConnect_try env cd s =
     (let doc = new_ServerSession (next_id s) (getProp (extractUserData cd) ''id'')
                  (getProp cd ''host'') (getProp cd ''username'') (now_login env);
          s2 = s\<lparr>emitted := emitted s @ [SshConnected (getProp cd ''host'') (getProp cd ''username'')],
                 currentSession := Some doc, next_id := Suc (next_id s)\<rparr>;
          s4 = s2\<lparr>sessions := (sessions s)(next_id s \<mapsto> doc),
                  activeSessions := (activeSessions s)(socket_id s \<mapsto>
                     \<lparr>sessionId = next_id s, userId = getProp (extractUserData cd) ''id'',
                      serverIp = getProp cd ''host'', loginTime = now_registry env\<rparr>)\<rparr>
      in if session_saved env \<noteq> Saved then Inl (SaveFailed, s2)
         else if \<not> shell_ok env then Inl (ShellFailed, s4)
         else Inr (s4\<lparr>streams := streams s @ [\<lparr>destroyed = False, written = []\<rparr>],
                      input_handlers := input_handlers s @
                        [\<lparr>h_stream = length (streams s), h_userData = extractUserData cd,
                          h_host = getProp cd ''host''\<rparr>]\<rparr>))"
proof -
  have n: "\<not> nullish cd" and u: "truthy (extractUserData cd)"
    using assms(1,4) truthy_getProp by blast+
  have sv: "session_save r (s\<lparr>emitted := e, currentSession := Some (new_ServerSession i a b c t), next_id := j\<rparr>) =
     (case r of
        Saved \<Rightarrow> Inr (s\<lparr>emitted := e, currentSession := Some (new_ServerSession i a b c t), next_id := j,
                        sessions := (sessions s)(i \<mapsto> new_ServerSession i a b c t)\<rparr>)
      | Invalid \<Rightarrow> Inl (SaveFailed, s\<lparr>emitted := e, currentSession := Some (new_ServerSession i a b c t), next_id := j\<rparr>)
      | WriteError \<Rightarrow> Inl (SaveFailed, s\<lparr>emitted := e, currentSession := Some (new_ServerSession i a b c t), next_id := j\<rparr>))"
    for r e i a b c t j
    by (subst session_save_ok [where d = "new_ServerSession i a b c t"])
       (simp_all split: save_result.splits)
  show ?thesis
    using assms n u
    by (cases "session_saved env") (simp_all add: handleSSHConnect_try_def Let_def sv)
qed

lemma sessions_ok_connect:
  assumes "sessions_ok s"
  shows "sessions_ok (handleSSHConnect env cd s)"
proof (cases "truthy (getProp cd ''host'') \<and> truthy (getProp cd ''username'')
      \<and> truthy (getProp cd ''password'') \<and> truthy (getProp (extractUserData cd) ''id'')")
  case False
  then have "\<not> truthy (getProp cd ''host'') \<or> \<not> truthy (getProp cd ''username'')
           \<or> \<not> truthy (getProp cd ''password'') \<or> \<not> truthy (getProp (extractUserData cd) ''id'')"
    by blast
  from connect_try_rejected [OF this, of env s] assms show ?thesis
    by (auto simp: handleSSHConnect_def sessions_ok_iff)
next
  case True
  show ?thesis
  proof (cases "connect_ok env")
    case False
    with True truthy_getProp [of cd "''host''"] truthy_getProp [of "extractUserData cd" "''id''"]
    have "handleSSHConnect_try env cd s = Inl (ConnectFailed, s)"
      by (simp add: handleSSHConnect_try_def Let_def)
    with assms show ?thesis by (simp add: handleSSHConnect_def sessions_ok_iff)
  next
    case c: True
    from True have a: "truthy (getProp cd ''host'')" "truthy (getProp cd ''username'')"
      "truthy (getProp cd ''password'')" "truthy (getProp (extractUserData cd) ''id'')"
      by simp_all
    show ?thesis
      using assms
      by (simp add: handleSSHConnect_def handleSSHConnect_try_accepted [OF a c] Let_def
          sessions_ok_iff)
  qed
qed

lemma sessions_ok_handleSessionEnd:
  "sessions_ok s \<Longrightarrow> sessions_ok (handleSessionEnd t r s)"
  by (cases "currentSession s")
     (auto simp: handleSessionEnd_None handleSessionEnd_Some sessions_ok_iff)

section \<open>Keystrokes\<close>

lemma command_command_pre_save [simp]: "command (command_pre_save c) = command c"
  by (simp add: command_pre_save_def checkIfDangerous_def Let_def command_classifyCommand)

lemma c_id_command_pre_save [simp]: "c_id (command_pre_save c) = c_id c"
  by (simp add: command_pre_save_def checkIfDangerous_def classifyCommand_def Let_def)

lemma new_Command_fields [simp]:
  "c_id (new_Command i k u h text t) = i"
  "command (new_Command i k u h text t) = text"
  "isNew (new_Command i k u h text t)"
  by (simp_all add: new_Command_def)

lemma command_save_cases:
  "command_save r c = (if r = Saved then Some ((command_pre_save c)\<lparr>isNew := False\<rparr>) else None)"
  by (cases r) (simp_all add: command_save_def)

lemma session_save_frame:
  "session_save r s = Inl (e, s') \<or> session_save r s = Inr s' \<Longrightarrow>
     streams s' = streams s \<and> input_handlers s' = input_handlers s \<and> emitted s' = emitted s
     \<and> commandBuffer s' = commandBuffer s \<and> next_id s' = next_id s \<and> commands s' = commands s
     \<and> logged s' = logged s \<and> timers s' = timers s \<and> currentCommand s' = currentCommand s
     \<and> socket_id s' = socket_id s \<and> activeSessions s' = activeSessions s
     \<and> pending s' = pending s \<and> unhandled s' = unhandled s
     \<and> (currentSession s \<noteq> None \<longrightarrow> currentSession s' \<noteq> None)"
  by (auto simp: session_save_def split: option.splits save_result.splits)

lemma session_save_total:
  "\<exists>e s'. session_save r s = Inl (e, s') \<or> session_save r s = Inr s'"
  by (cases "session_save r s") auto

lemma session_save_thrown:
  assumes "currentSession s \<noteq> None"
  shows "(\<exists>e s'. session_save r s = Inl (e, s')) \<longleftrightarrow> r \<noteq> Saved"
    and "session_save r s = Inl (e, s') \<Longrightarrow> e = SaveFailed"
  using assms by (auto simp: session_save_def split: option.splits save_result.splits)

text \<open>The input listener on an open stream, up to its first \<open>await\<close>.\<close>

lemma ssh_input_open:
  assumes "h_stream h < length (streams s)" and "\<not> destroyed (streams s ! h_stream h)"
  shows "streams (ssh_input h env input s) =
           (streams s)[h_stream h := (streams s ! h_stream h)
              \<lparr>written := written (streams s ! h_stream h) @ [input]\<rparr>]"
    and "input_handlers (ssh_input h env input s) = input_handlers s"
    and "emitted (ssh_input h env input s) = emitted s"
    and "logged (ssh_input h env input s) = logged s"
    and "unhandled (ssh_input h env input s) = unhandled s"
    and "currentSession (ssh_input h env input s) = currentSession s"
    and "sessions (ssh_input h env input s) = sessions s"
    and "currentCommand (ssh_input h env input s) = currentCommand s"
    and "timers (ssh_input h env input s) = timers s"
  using assms
  by (auto simp: ssh_input_def Let_def split: option.splits)

lemma ssh_input_rest:
  assumes "h_stream h < length (streams s)" and "\<not> destroyed (streams s ! h_stream h)"
    and "\<not> (line_boundary input \<and> trim (commandBuffer s) \<noteq> [] \<and> currentSession s \<noteq> None)"
  shows "commandBuffer (ssh_input h env input s) =
           (if line_boundary input then [] else commandBuffer s @ input)"
    and "next_id (ssh_input h env input s) = next_id s"
    and "commands (ssh_input h env input s) = commands s"
    and "pending (ssh_input h env input s) = pending s"
  using assms
  by (auto simp: ssh_input_def Let_def line_boundary_def split: option.splits)

lemma ssh_input_command:
  assumes "h_stream h < length (streams s)" and "\<not> destroyed (streams s ! h_stream h)"
    and "line_boundary input" and "trim (commandBuffer s) \<noteq> []"
    and "currentSession s = Some sess"
  shows "commandBuffer (ssh_input h env input s) = commandBuffer s"
    and "next_id (ssh_input h env input s) = Suc (next_id s)"
    and "commands (ssh_input h env input s) =
           (if command_saved env = Saved
            then (commands s)(next_id s \<mapsto>
                   (command_pre_save (new_Command (next_id s) (s_id sess)
                       (getProp (h_userData h) ''id'') (h_host h) (trim (commandBuffer s))
                       (now_input env)))\<lparr>isNew := False\<rparr>)
            else commands s)"
    and "pending (ssh_input h env input s) =
           pending s @ [CommandSave env
             (command_save (command_saved env)
                (new_Command (next_id s) (s_id sess) (getProp (h_userData h) ''id'') (h_host h)
                   (trim (commandBuffer s)) (now_input env)))]"
  using assms
  by (auto simp: ssh_input_def Let_def line_boundary_def command_save_cases)

text \<open>The two continuations of the listener.\<close>

lemma after_command_save_frame:
  "streams (after_command_save env saved s) = streams s"
  "input_handlers (after_command_save env saved s) = input_handlers s"
  "emitted (after_command_save env saved s) = emitted s"
  "next_id (after_command_save env saved s) = next_id s"
  "commands (after_command_save env saved s) = commands s"
  "unhandled (after_command_save env saved s) = unhandled s"
  "currentSession s \<noteq> None \<Longrightarrow> currentSession (after_command_save env saved s) \<noteq> None"
  by (auto simp: after_command_save_def Let_def split: option.splits sum.splits
      dest!: session_save_frame [OF disjI1] session_save_frame [OF disjI2])

lemma after_command_save_rest:
  assumes "currentSession s \<noteq> None"
  shows "pending (after_command_save env saved s) =
           (case saved of None \<Rightarrow> pending s
            | Some c \<Rightarrow> pending s @ [SessionSave (if session_resaved env = Saved then None
                                                     else Some SaveFailed)])"
    and "logged (after_command_save env saved s) =
           (case saved of None \<Rightarrow> logged s @ [SaveFailed] | Some c \<Rightarrow> logged s)"
    and "commandBuffer (after_command_save env saved s) =
           (case saved of None \<Rightarrow> [] | Some c \<Rightarrow> commandBuffer s)"
    and "currentCommand (after_command_save env saved s) =
           (case saved of None \<Rightarrow> currentCommand s | Some c \<Rightarrow> Some c)"
    and "timers (after_command_save env saved s) = timers s"
  using assms
  by (auto simp: after_command_save_def Let_def session_save_def
      split: option.splits sum.splits save_result.splits)

lemma after_session_save_frame:
  "streams (after_session_save thrown s) = streams s"
  "input_handlers (after_session_save thrown s) = input_handlers s"
  "emitted (after_session_save thrown s) = emitted s"
  "next_id (after_session_save thrown s) = next_id s"
  "commands (after_session_save thrown s) = commands s"
  "unhandled (after_session_save thrown s) = unhandled s"
  "currentSession (after_session_save thrown s) = currentSession s"
  "sessions (after_session_save thrown s) = sessions s"
  "pending (after_session_save thrown s) = pending s"
  "commandBuffer (after_session_save thrown s) = []"
  "logged (after_session_save thrown s) = (case thrown of None \<Rightarrow> logged s | Some e \<Rightarrow> logged s @ [e])"
  "currentCommand (after_session_save thrown s) = currentCommand s"
  "timers (after_session_save thrown s) = (case thrown of None \<Rightarrow> Suc (timers s) | Some e \<Rightarrow> timers s)"
  by (simp_all add: after_session_save_def split: option.splits)

lemma settle_frame:
  "streams (settle k s) = streams s"
  "input_handlers (settle k s) = input_handlers s"
  "emitted (settle k s) = emitted s"
  "next_id (settle k s) = next_id s"
  "commands (settle k s) = commands s"
  "unhandled (settle k s) = unhandled s"
  by (auto simp: settle_def Let_def after_command_save_frame after_session_save_frame
      split: task.splits)

lemma settle_session:
  assumes "currentSession s \<noteq> None"
  shows "currentSession (settle k s) \<noteq> None"
proof (cases "k < length (pending s)")
  case False
  then show ?thesis using assms by (simp add: settle_def)
next
  case True
  let ?s1 = "s\<lparr>pending := take k (pending s) @ drop (Suc k) (pending s)\<rparr>"
  have c: "currentSession ?s1 \<noteq> None" using assms by simp
  show ?thesis
  proof (cases "pending s ! k")
    case (CommandSave env saved)
    then show ?thesis
      using True after_command_save_frame(7) [OF c, of env saved]
      by (simp add: settle_def)
  next
    case (SessionSave thrown)
    then show ?thesis
      using True c by (simp add: settle_def after_session_save_frame)
  qed
qed

lemma settle_head:
  "pending s = t # ts \<Longrightarrow>
   settle 0 s = (case t of
       CommandSave env saved \<Rightarrow> after_command_save env saved (s\<lparr>pending := ts\<rparr>)
     | SessionSave thrown \<Rightarrow> after_session_save thrown (s\<lparr>pending := ts\<rparr>))"
  by (simp add: settle_def Let_def)

lemma settle_nothing: "pending s = [] \<Longrightarrow> settle k s = s"
  by (simp add: settle_def)

text \<open>
  One chunk at a time, on an open session at rest with one listener: what the input
  event and the two completions leave.
\<close>

lemma one_at_a_time_run:
  "input_handlers s = [h] \<Longrightarrow>
   run s (one_at_a_time env input) = settle 0 (settle 0 (ssh_input h env input s))"
  by (simp add: one_at_a_time_def run_def)

lemma one_at_a_time_open:
  assumes "input_handlers s = [h]"
    and "h_stream h < length (streams s)" and "\<not> destroyed (streams s ! h_stream h)"
  shows "streams (run s (one_at_a_time env input)) =
           (streams s)[h_stream h := (streams s ! h_stream h)
              \<lparr>written := written (streams s ! h_stream h) @ [input]\<rparr>]"
    and "input_handlers (run s (one_at_a_time env input)) = input_handlers s"
    and "emitted (run s (one_at_a_time env input)) = emitted s"
    and "unhandled (run s (one_at_a_time env input)) = unhandled s"
  by (simp_all add: one_at_a_time_run [OF assms(1)] settle_frame ssh_input_open [OF assms(2,3)])

lemma one_at_a_time_session:
  assumes "input_handlers s = [h]"
    and "h_stream h < length (streams s)" and "\<not> destroyed (streams s ! h_stream h)"
    and "currentSession s = Some sess" and "pending s = []"
  shows "currentSession (run s (one_at_a_time env input)) \<noteq> None"
    and "pending (run s (one_at_a_time env input)) = []"
    and "commandBuffer (run s (one_at_a_time env input)) =
           (if line_boundary input then [] else commandBuffer s @ input)"
    and "next_id (run s (one_at_a_time env input)) =
           (if line_boundary input \<and> trim (commandBuffer s) \<noteq> [] then Suc (next_id s)
            else next_id s)"
    and "commands (run s (one_at_a_time env input)) =
           (if line_boundary input \<and> trim (commandBuffer s) \<noteq> [] \<and> command_saved env = Saved
            then (commands s)(next_id s \<mapsto>
                   (command_pre_save (new_Command (next_id s) (s_id sess)
                       (getProp (h_userData h) ''id'') (h_host h) (trim (commandBuffer s))
                       (now_input env)))\<lparr>isNew := False\<rparr>)
            else commands s)"
    and "logged (run s (one_at_a_time env input)) =
           (if line_boundary input \<and> trim (commandBuffer s) \<noteq> []
               \<and> (command_saved env \<noteq> Saved \<or> session_resaved env \<noteq> Saved)
            then logged s @ [SaveFailed] else logged s)"
    and "currentCommand (run s (one_at_a_time env input)) =
           (if line_boundary input \<and> trim (commandBuffer s) \<noteq> [] \<and> command_saved env = Saved
            then Some ((command_pre_save (new_Command (next_id s) (s_id sess)
                       (getProp (h_userData h) ''id'') (h_host h) (trim (commandBuffer s))
                       (now_input env)))\<lparr>isNew := False\<rparr>)
            else currentCommand s)"
    and "timers (run s (one_at_a_time env input)) =
           (if line_boundary input \<and> trim (commandBuffer s) \<noteq> [] \<and> command_saved env = Saved
               \<and> session_resaved env = Saved
            then Suc (timers s) else timers s)"
proof -
  let ?a = "ssh_input h env input s"
  note r = one_at_a_time_run [OF assms(1), of env input]
  note A = ssh_input_open [OF assms(2,3), of env input]
  have cs: "currentSession ?a \<noteq> None" using assms(4) by (simp add: A)
  show "currentSession (run s (one_at_a_time env input)) \<noteq> None"
    unfolding r by (intro settle_session cs)
  have all: "pending (run s (one_at_a_time env input)) = [] \<and>
      commandBuffer (run s (one_at_a_time env input)) =
           (if line_boundary input then [] else commandBuffer s @ input) \<and>
      next_id (run s (one_at_a_time env input)) =
           (if line_boundary input \<and> trim (commandBuffer s) \<noteq> [] then Suc (next_id s)
            else next_id s) \<and>
      commands (run s (one_at_a_time env input)) =
           (if line_boundary input \<and> trim (commandBuffer s) \<noteq> [] \<and> command_saved env = Saved
            then (commands s)(next_id s \<mapsto>
                   (command_pre_save (new_Command (next_id s) (s_id sess)
                       (getProp (h_userData h) ''id'') (h_host h) (trim (commandBuffer s))
                       (now_input env)))\<lparr>isNew := False\<rparr>)
            else commands s) \<and>
      logged (run s (one_at_a_time env input)) =
           (if line_boundary input \<and> trim (commandBuffer s) \<noteq> []
               \<and> (command_saved env \<noteq> Saved \<or> session_resaved env \<noteq> Saved)
            then logged s @ [SaveFailed] else logged s) \<and>
      currentCommand (run s (one_at_a_time env input)) =
           (if line_boundary input \<and> trim (commandBuffer s) \<noteq> [] \<and> command_saved env = Saved
            then Some ((command_pre_save (new_Command (next_id s) (s_id sess)
                       (getProp (h_userData h) ''id'') (h_host h) (trim (commandBuffer s))
                       (now_input env)))\<lparr>isNew := False\<rparr>)
            else currentCommand s) \<and>
      timers (run s (one_at_a_time env input)) =
           (if line_boundary input \<and> trim (commandBuffer s) \<noteq> [] \<and> command_saved env = Saved
               \<and> session_resaved env = Saved
            then Suc (timers s) else timers s)"
  proof (cases "line_boundary input \<and> trim (commandBuffer s) \<noteq> []")
    case False
    then have n: "\<not> (line_boundary input \<and> trim (commandBuffer s) \<noteq> [] \<and> currentSession s \<noteq> None)"
      by blast
    note R = ssh_input_rest [OF assms(2,3) n, of env]
    have p: "pending ?a = []" using R(4) assms(5) by simp
    show ?thesis
      unfolding r using False R A(4,8,9) p by (auto simp add: settle_nothing)
  next
    case True
    then have b: "line_boundary input" and c: "trim (commandBuffer s) \<noteq> []" by simp_all
    note C = ssh_input_command [OF assms(2,3) b c assms(4), of env]
    let ?saved = "command_save (command_saved env)
                (new_Command (next_id s) (s_id sess) (getProp (h_userData h) ''id'') (h_host h)
                   (trim (commandBuffer s)) (now_input env))"
    have p: "pending ?a = [CommandSave env ?saved]" using C(4) assms(5) by simp
    let ?rest = "?a\<lparr>pending := []\<rparr>"
    have s1: "settle 0 ?a = after_command_save env ?saved ?rest"
      by (simp add: settle_head [OF p])
    have cs0: "currentSession ?rest \<noteq> None" using cs by simp
    note B = after_command_save_rest [where s = "?rest" and env = env and saved = "?saved", OF cs0]
    note F = after_command_save_frame [where s = "?rest" and env = env and saved = "?saved"]
    show ?thesis
    proof (cases "command_saved env = Saved")
      case False
      then have n: "?saved = None" by (simp add: command_save_cases)
      have p1: "pending (settle 0 ?a) = []" unfolding s1 using B(1) n by simp
      show ?thesis
        unfolding r settle_nothing [OF p1]
        using True False C(2,3) A(4,8,9) B(2,3,4,5) F(4,5) n p1
        by (simp add: s1)
    next
      case sv: True
      then obtain cdoc where n: "?saved = Some cdoc" by (simp add: command_save_cases)
      let ?b = "settle 0 ?a"
      let ?thrown = "if session_resaved env = Saved then None else Some SaveFailed"
      have p1: "pending ?b = [SessionSave ?thrown]" unfolding s1 using B(1) n by simp
      have s2: "settle 0 ?b = after_session_save ?thrown (?b\<lparr>pending := []\<rparr>)"
        by (simp add: settle_head [OF p1])
      show ?thesis
        unfolding r s2
        using True sv C(2,3) A(4,8,9) B(2,4,5) F(4,5) n
        by (auto simp add: after_session_save_frame s1 command_save_cases)
    qed
  qed
  show "pending (run s (one_at_a_time env input)) = []"
    "commandBuffer (run s (one_at_a_time env input)) =
           (if line_boundary input then [] else commandBuffer s @ input)"
    "next_id (run s (one_at_a_time env input)) =
           (if line_boundary input \<and> trim (commandBuffer s) \<noteq> [] then Suc (next_id s)
            else next_id s)"
    "commands (run s (one_at_a_time env input)) =
           (if line_boundary input \<and> trim (commandBuffer s) \<noteq> [] \<and> command_saved env = Saved
            then (commands s)(next_id s \<mapsto>
                   (command_pre_save (new_Command (next_id s) (s_id sess)
                       (getProp (h_userData h) ''id'') (h_host h) (trim (commandBuffer s))
                       (now_input env)))\<lparr>isNew := False\<rparr>)
            else commands s)"
    "logged (run s (one_at_a_time env input)) =
           (if line_boundary input \<and> trim (commandBuffer s) \<noteq> []
               \<and> (command_saved env \<noteq> Saved \<or> session_resaved env \<noteq> Saved)
            then logged s @ [SaveFailed] else logged s)"
    "currentCommand (run s (one_at_a_time env input)) =
           (if line_boundary input \<and> trim (commandBuffer s) \<noteq> [] \<and> command_saved env = Saved
            then Some ((command_pre_save (new_Command (next_id s) (s_id sess)
                       (getProp (h_userData h) ''id'') (h_host h) (trim (commandBuffer s))
                       (now_input env)))\<lparr>isNew := False\<rparr>)
            else currentCommand s)"
    "timers (run s (one_at_a_time env input)) =
           (if line_boundary input \<and> trim (commandBuffer s) \<noteq> [] \<and> command_saved env = Saved
               \<and> session_resaved env = Saved
            then Suc (timers s) else timers s)"
    using all by blast+
qed

section \<open>The example connection\<close>

lemma request0_props:
  "truthy (getProp request0 ''host'')" "truthy (getProp request0 ''username'')"
  "truthy (getProp request0 ''password'')"
  "truthy (getProp (extractUserData request0) ''id'')"
  "getProp (extractUserData request0) ''id'' = user0"
  "getProp request0 ''host'' = host0"
  "getProp request0 ''username'' = JStr (js ''student'')"
  by (simp_all add: request0_def extractUserData_def js_def user0_def host0_def)

lemma opened_eq:
  "opened =
     \<lparr>socket_id = 1,
      currentSession = Some session0,
      commandBuffer = [], currentCommand = None,
      sessions = [0 \<mapsto> session0],
      commands = Map.empty,
      activeSessions = [1 \<mapsto> \<lparr>sessionId = 0, userId = user0,
                                serverIp = host0, loginTime = 0\<rparr>],
      emitted = [SshConnected host0 (JStr (js ''student''))],
      streams = [\<lparr>destroyed = False, written = []\<rparr>],
      input_handlers = [listener0],
      pending = [], timers = 0, logged = [], unhandled = [],
      ssh_disposed = False, next_id = 1\<rparr>"
proof -
  have c: "connect_ok (env_ok 0)" by (simp add: env_ok_def)
  show ?thesis
    unfolding opened_def fire.simps handleSSHConnect_def
      handleSSHConnect_try_accepted [OF request0_props(1-4) c]
    by (simp add: Let_def request0_props(5-7) env_ok_def connection_def session0_def
        listener0_def)
qed

section \<open>The duration of a session\<close>

lemma run_Nil [simp]: "run s [] = s"
  by (simp add: run_def)

lemma run_Cons [simp]: "run s (ev # evs) = run (fire s ev) evs"
  by (simp add: run_def)

lemma run_append: "run s (xs @ ys) = run (run s xs) ys"
  by (simp add: run_def)

lemma sessions_ok_session_save:
  assumes "sessions_ok s"
    and "session_save r s = Inl (e, s') \<or> session_save r s = Inr s'"
  shows "sessions_ok s'"
  using assms
  by (auto simp: sessions_ok_iff session_save_def session_pre_save_ok
      split: option.splits save_result.splits if_splits)

lemma sessions_ok_ssh_input:
  assumes "sessions_ok s"
  shows "sessions_ok (ssh_input h env input s)"
  using assms
  by (auto simp: ssh_input_def Let_def sessions_ok_iff split: option.splits)

lemma sessions_ok_after_command_save:
  assumes "sessions_ok s"
  shows "sessions_ok (after_command_save env saved s)"
proof (cases saved)
  case None
  with assms show ?thesis by (simp add: after_command_save_def sessions_ok_iff)
next
  case (Some c)
  show ?thesis
  proof (cases "currentSession s")
    case None
    with assms Some show ?thesis by (simp add: after_command_save_def sessions_ok_iff)
  next
    case sess: (Some sess)
    let ?s1 = "s\<lparr>currentCommand := Some c,
                 currentSession :=
                   Some (sess\<lparr>commands_executed := commands_executed sess @ [c_id c]\<rparr>)\<rparr>"
    have ok1: "sessions_ok ?s1" using assms sess by (simp add: sessions_ok_iff)
    show ?thesis
    proof (cases "session_save (session_resaved env) ?s1")
      case (Inl es)
      obtain e s2 where es: "es = (e, s2)" by (cases es)
      from sessions_ok_session_save [OF ok1] Inl es have "sessions_ok s2" by blast
      then have "sessions_ok (s2\<lparr>pending := pending s2 @ [SessionSave (Some e)]\<rparr>)"
        by (simp add: sessions_ok_iff)
      with Some sess Inl es show ?thesis by (simp add: after_command_save_def Let_def)
    next
      case (Inr s2)
      from sessions_ok_session_save [OF ok1] Inr have "sessions_ok s2" by blast
      then have "sessions_ok (s2\<lparr>pending := pending s2 @ [SessionSave None]\<rparr>)"
        by (simp add: sessions_ok_iff)
      with Some sess Inr show ?thesis by (simp add: after_command_save_def Let_def)
    qed
  qed
qed

lemma sessions_ok_settle:
  assumes "sessions_ok s"
  shows "sessions_ok (settle k s)"
proof (cases "k < length (pending s)")
  case False
  with assms show ?thesis by (simp add: settle_def)
next
  case True
  let ?s1 = "s\<lparr>pending := take k (pending s) @ drop (Suc k) (pending s)\<rparr>"
  have ok1: "sessions_ok ?s1" using assms by (simp add: sessions_ok_iff)
  show ?thesis
  proof (cases "pending s ! k")
    case (CommandSave env saved)
    with True sessions_ok_after_command_save [OF ok1, of env saved] show ?thesis
      by (simp add: settle_def)
  next
    case (SessionSave thrown)
    have "sessions_ok (after_session_save thrown ?s1)"
      using ok1 by (simp add: sessions_ok_iff after_session_save_frame)
    with True SessionSave show ?thesis by (simp add: settle_def)
  qed
qed

lemma sessions_ok_dispatch_input:
  "sessions_ok s \<Longrightarrow> sessions_ok (dispatch_input envs input i hs s)"
  by (induction hs arbitrary: s i) (simp_all add: sessions_ok_ssh_input)

lemma sessions_ok_fire:
  assumes "sessions_ok s"
  shows "sessions_ok (fire s ev)"
proof (cases ev)
  case (Connect name env cd)
  with assms show ?thesis by (simp add: sessions_ok_connect)
next
  case (SshInput envs input)
  with assms show ?thesis by (simp add: sessions_ok_dispatch_input)
next
  case (StreamData h data)
  with assms show ?thesis
    by (auto simp: stream_on_data_def Let_def sessions_ok_iff split: option.splits)
next
  case (StreamClose h now r)
  have "sessions_ok (s\<lparr>streams := (streams s)[h := (streams s ! h)\<lparr>destroyed := True\<rparr>],
                       emitted := emitted s @ [SshDisconnected]\<rparr>)"
    using assms by (simp add: sessions_ok_iff)
  from sessions_ok_handleSessionEnd [OF this] StreamClose assms show ?thesis
    by (simp add: stream_on_close_def)
next
  case (StreamError h)
  with assms show ?thesis by (simp add: stream_on_error_def sessions_ok_iff)
next
  case (UserDisconnect now r)
  with assms show ?thesis by (simp add: user_disconnect_def sessions_ok_handleSessionEnd)
next
  case (SocketDisconnect now r)
  have "sessions_ok (s\<lparr>ssh_disposed := True\<rparr>)" using assms by (simp add: sessions_ok_iff)
  from sessions_ok_handleSessionEnd [OF this] SocketDisconnect show ?thesis
    by (simp add: socket_disconnect_def)
next
  case (CaptureTimeout r)
  with assms show ?thesis
    by (auto simp: capture_timeout_def sessions_ok_iff split: option.splits)
next
  case (Settle k)
  with assms show ?thesis by (simp add: sessions_ok_settle)
qed

lemma sessions_ok_run: "sessions_ok s \<Longrightarrow> sessions_ok (run s evs)"
  by (induction evs arbitrary: s) (simp_all add: sessions_ok_fire)

text \<open>
  Claim C3, as amended. The duration of a session document is always present: in every
  state that a connection reaches, the tracked session and every stored session have the
  duration \<open>0\<close> (the default of the schema) while the closing timestamp is absent, and
  the closing timestamp minus the creation timestamp in whole seconds (floor of the
  milliseconds over 1000) once it is present.
\<close>

theorem duration_invariant:
  assumes "\<forall>d \<in> ran ss. duration_ok d"
    and "currentSession (run (connection sid ss cs reg n) evs) = Some d
         \<or> d \<in> ran (sessions (run (connection sid ss cs reg n) evs))"
  shows "session_duration d =
           (case logout_time d of None \<Rightarrow> Some 0
            | Some closing \<Rightarrow> Some ((closing - login_time d) div 1000))"
proof -
  have "sessions_ok (connection sid ss cs reg n)"
    using assms(1) by (simp add: sessions_ok_def connection_def)
  then have "sessions_ok (run (connection sid ss cs reg n) evs)"
    by (rule sessions_ok_run)
  with assms(2) have "duration_ok d"
    by (auto simp: sessions_ok_def)
  then show ?thesis
    by (simp add: duration_ok_def split: option.splits)
qed

lemma opened_fields:
  "currentSession opened = Some session0"
  "sessions opened = [0 \<mapsto> session0]"
  "socket_id opened = 1"
  "next_id opened = 1"
  "commandBuffer opened = []"
  "commands opened = Map.empty"
  "streams opened = [\<lparr>destroyed = False, written = []\<rparr>]"
  "input_handlers opened = [listener0]"
  "emitted opened = [SshConnected host0 (JStr (js ''student''))]"
  "logged opened = []"
  "pending opened = []"
  "unhandled opened = []"
  "currentCommand opened = None"
  by (simp_all add: opened_eq)

lemma session0_fields [simp]:
  "s_id session0 = 0" "login_time session0 = 0" "logout_time session0 = None"
  "status session0 = Active" "session_duration session0 = Some 0"
  "commands_executed session0 = []"
  by (simp_all add: session0_def)

lemma run_from_opened:
  "run (connection 1 Map.empty Map.empty Map.empty 0) (Connect ssh_connect (env_ok 0) request0 # evs)
     = run opened evs"
  by (simp add: opened_def)

theorem duration_invariant_witness:
  "currentSession (run (connection 1 Map.empty Map.empty Map.empty 0)
       [Connect ssh_connect (env_ok 0) request0, UserDisconnect 2500 Saved])
     = Some (finalized 2500 session0)
   \<and> session_duration (finalized 2500 session0) = Some 2"
proof -
  let ?d = "finalized 2500 session0"
  have h: "currentSession (run (connection 1 Map.empty Map.empty Map.empty 0)
       [Connect ssh_connect (env_ok 0) request0, UserDisconnect 2500 Saved]) = Some ?d"
    by (simp only: run_from_opened)
       (simp add: user_disconnect_def handleSessionEnd_Some opened_fields)
  have e: "\<forall>d \<in> ran (Map.empty :: nat \<rightharpoonup> ServerSession). duration_ok d" by simp
  from duration_invariant [OF e disjI1 [OF h]] have "session_duration ?d = Some 2"
    by (simp add: finalized_def)
  with h show ?thesis by blast
qed

text \<open>
  Claim C3 as stated fails: the session of a connection that has just been opened has no
  closing timestamp, and its duration is present (it is \<open>0\<close>).
\<close>

theorem duration_absent_counterexample:
  "map_option logout_time (sessions opened 0) = Some None
   \<and> map_option session_duration (sessions opened 0) = Some (Some 0)"
  by (simp add: opened_fields)

section \<open>Finalize\<close>

theorem finalize_twice_witness:
  "currentSession (handleSessionEnd 5000 Saved (handleSessionEnd 1000 Saved opened))
     = Some (finalized 5000 session0)
   \<and> sessions (handleSessionEnd 5000 Saved (handleSessionEnd 1000 Saved opened)) 0
     = Some (finalized 5000 session0)
   \<and> activeSessions (handleSessionEnd 5000 Saved (handleSessionEnd 1000 Saved opened)) 1 = None"
  using finalize_twice [OF opened_fields(1), of 5000 Saved 1000 Saved]
  by (simp add: opened_fields)

text \<open>
  Claim C1 as stated fails: the page's disconnect sends \<open>"user-disconnect"\<close> and then closes
  the socket; the second finalize, four seconds after the first, moves the stored closing
  timestamp from 1000 to 5000 and the stored duration from 1 to 5.
\<close>

theorem finalize_once_counterexample:
  "map_option logout_time (sessions (run opened [UserDisconnect 1000 Saved]) 0) = Some (Some 1000)
   \<and> map_option session_duration (sessions (run opened [UserDisconnect 1000 Saved]) 0) = Some (Some 1)
   \<and> map_option logout_time
        (sessions (run opened [UserDisconnect 1000 Saved, SocketDisconnect 5000 Saved]) 0)
       = Some (Some 5000)
   \<and> map_option session_duration
        (sessions (run opened [UserDisconnect 1000 Saved, SocketDisconnect 5000 Saved]) 0)
       = Some (Some 5)"
  by (simp add: user_disconnect_def socket_disconnect_def handleSessionEnd_Some opened_fields)

section \<open>A second connect request\<close>

text \<open>
  Claim C4, as amended. A connection tracks one Session (\<open>currentSession\<close>) and has one
  registry entry (under its socket id). An accepted connect request, under any of the
  three event names, that arrives while a Session is active does not finalize it: a
  second Session with status \<open>active\<close> is stored and tracked, the registry entry is
  overwritten with it, and the stored first Session keeps the status \<open>active\<close>.
\<close>

theorem second_connect:
  assumes "currentSession s = Some old" and "sessions s (s_id old) = Some old"
    and "status old = Active" and "s_id old \<noteq> next_id s"
    and "truthy (getProp cd ''host'')" and "truthy (getProp cd ''username'')"
    and "truthy (getProp cd ''password'')"
    and "truthy (getProp (extractUserData cd) ''id'')"
    and "connect_ok env" and "session_saved env = Saved"
  shows "\<exists>new. currentSession (fire s (Connect name env cd)) = Some new
           \<and> s_id new = next_id s \<and> status new = Active
           \<and> sessions (fire s (Connect name env cd)) (next_id s) = Some new
           \<and> sessions (fire s (Connect name env cd)) (s_id old) = Some old
           \<and> map_option sessionId (activeSessions (fire s (Connect name env cd)) (socket_id s))
               = Some (next_id s)"
  using assms(1-4,10)
  by (cases "shell_ok env")
     (simp_all add: handleSSHConnect_def handleSSHConnect_try_accepted [OF assms(5-9)] Let_def)

theorem second_connect_witness:
  "\<exists>new. currentSession (fire opened (Connect connect_ssh (env_ok 10) request0)) = Some new
           \<and> s_id new = 1 \<and> status new = Active
           \<and> sessions (fire opened (Connect connect_ssh (env_ok 10) request0)) 1 = Some new
           \<and> sessions (fire opened (Connect connect_ssh (env_ok 10) request0)) 0
               = Some session0
           \<and> map_option sessionId
                (activeSessions (fire opened (Connect connect_ssh (env_ok 10) request0)) 1)
               = Some 1"
proof -
  have c: "connect_ok (env_ok 10)" "session_saved (env_ok 10) = Saved"
    by (simp_all add: env_ok_def)
  have o: "sessions opened (s_id session0)
           = Some session0"
     "status session0 = Active"
     "s_id session0 \<noteq> next_id opened"
    by (simp_all add: opened_fields)
  from second_connect [OF opened_fields(1) o request0_props(1-4) c, of connect_ssh]
  show ?thesis by (simp add: opened_fields)
qed

text \<open>
  Claim C4 as stated fails: after two accepted connect requests on one connection, under
  two of the event names, the store holds two Sessions of that connection with status
  \<open>active\<close>.
\<close>

theorem one_active_counterexample:
  "map_option status
     (sessions (run (connection 1 Map.empty Map.empty Map.empty 0)
        [Connect ssh_connect (env_ok 0) request0,
         Connect ssh_connect_enhanced (env_ok 10) request0]) 0) = Some Active
   \<and> map_option status
     (sessions (run (connection 1 Map.empty Map.empty Map.empty 0)
        [Connect ssh_connect (env_ok 0) request0,
         Connect ssh_connect_enhanced (env_ok 10) request0]) 1) = Some Active"
proof -
  have c: "connect_ok (env_ok 10)" by (simp add: env_ok_def)
  have 1: "run (connection 1 Map.empty Map.empty Map.empty 0)
        [Connect ssh_connect (env_ok 0) request0,
         Connect ssh_connect_enhanced (env_ok 10) request0]
      = handleSSHConnect (env_ok 10) request0 opened"
    by (subst run_from_opened) simp
  have 2: "session_saved (env_ok 10) = Saved" by (simp add: env_ok_def)
  show ?thesis
    unfolding 1 handleSSHConnect_def handleSSHConnect_try_accepted [OF request0_props(1-4) c]
    by (simp add: Let_def opened_fields 2)
qed

section \<open>Forwarding of keystrokes\<close>

lemma ssh_input_closed:
  assumes "\<not> (h_stream h < length (streams s) \<and> \<not> destroyed (streams s ! h_stream h))"
  shows "streams (ssh_input h env input s) = streams s"
    and "input_handlers (ssh_input h env input s) = input_handlers s"
  using assms by (auto simp: ssh_input_def)

lemma ssh_input_streams:
  "length (streams (ssh_input h env input s)) = length (streams s)"
  "input_handlers (ssh_input h env input s) = input_handlers s"
  "k < length (streams s) \<Longrightarrow>
     destroyed (streams (ssh_input h env input s) ! k) = destroyed (streams s ! k)"
  "k < length (streams s) \<Longrightarrow>
     written (streams (ssh_input h env input s) ! k) =
       written (streams s ! k) @ (if k = h_stream h \<and> \<not> destroyed (streams s ! k) then [input] else [])"
proof -
  show "length (streams (ssh_input h env input s)) = length (streams s)"
    by (cases "h_stream h < length (streams s) \<and> \<not> destroyed (streams s ! h_stream h)")
       (simp_all add: ssh_input_open(1) ssh_input_closed(1))
  show "input_handlers (ssh_input h env input s) = input_handlers s"
    by (cases "h_stream h < length (streams s) \<and> \<not> destroyed (streams s ! h_stream h)")
       (simp_all add: ssh_input_open(2) ssh_input_closed(2))
  show "k < length (streams s) \<Longrightarrow>
     destroyed (streams (ssh_input h env input s) ! k) = destroyed (streams s ! k)"
    by (cases "h_stream h < length (streams s) \<and> \<not> destroyed (streams s ! h_stream h)")
       (auto simp: ssh_input_open(1) ssh_input_closed(1) nth_list_update)
  show "k < length (streams s) \<Longrightarrow>
     written (streams (ssh_input h env input s) ! k) =
       written (streams s ! k) @ (if k = h_stream h \<and> \<not> destroyed (streams s ! k) then [input] else [])"
    by (cases "h_stream h < length (streams s) \<and> \<not> destroyed (streams s ! h_stream h)")
       (auto simp: ssh_input_open(1) ssh_input_closed(1) nth_list_update)
qed

lemma dispatch_input_streams:
  assumes "distinct (map h_stream hs)"
  shows "length (streams (dispatch_input envs input i hs s)) = length (streams s)
       \<and> input_handlers (dispatch_input envs input i hs s) = input_handlers s
       \<and> (\<forall>k < length (streams s).
            destroyed (streams (dispatch_input envs input i hs s) ! k) = destroyed (streams s ! k)
            \<and> written (streams (dispatch_input envs input i hs s) ! k) =
                written (streams s ! k) @
                  (if k \<in> h_stream ` set hs \<and> \<not> destroyed (streams s ! k) then [input] else []))"
  using assms
proof (induction hs arbitrary: s i)
  case Nil
  show ?case by simp
next
  case (Cons h hs)
  let ?s1 = "ssh_input h (envs i) input s"
  from Cons.prems have d: "distinct (map h_stream hs)" and n: "h_stream h \<notin> h_stream ` set hs"
    by auto
  note IH = Cons.IH [OF d, of "Suc i" ?s1]
  show ?case
    using IH n by (auto simp: ssh_input_streams)
qed

lemma run_inputs_streams:
  assumes "distinct (map h_stream (input_handlers s))"
    and "h \<in> set (input_handlers s)"
    and "h_stream h < length (streams s)" and "\<not> destroyed (streams s ! h_stream h)"
  shows "h_stream h < length (streams (run s (map (\<lambda>(envs, input). SshInput envs input) ys)))
       \<and> \<not> destroyed (streams (run s (map (\<lambda>(envs, input). SshInput envs input) ys)) ! h_stream h)
       \<and> written (streams (run s (map (\<lambda>(envs, input). SshInput envs input) ys)) ! h_stream h)
           = written (streams s ! h_stream h) @ map snd ys"
  using assms
proof (induction ys arbitrary: s)
  case Nil
  then show ?case by simp
next
  case (Cons y ys)
  obtain envs input where y: "y = (envs, input)" by (cases y)
  let ?s1 = "dispatch_input envs input 0 (input_handlers s) s"
  note D = dispatch_input_streams [OF Cons.prems(1), of envs input 0 s]
  from D Cons.prems have 1: "distinct (map h_stream (input_handlers ?s1))"
    "h \<in> set (input_handlers ?s1)" "h_stream h < length (streams ?s1)"
    "\<not> destroyed (streams ?s1 ! h_stream h)"
    "written (streams ?s1 ! h_stream h) = written (streams s ! h_stream h) @ [input]"
    by auto
  from Cons.IH [OF 1(1-4)] 1(5) y show ?case by simp
qed

section \<open>Commands emitted by the keystroke buffer\<close>



lemma inputs_Nil [simp]: "inputs [] = []"
  by (simp add: inputs_def)








section \<open>The example session at work\<close>

lemma opened_listener: "input_handlers opened = [listener0]"
  by (simp add: opened_fields)

lemma listener0_stream [simp]: "h_stream listener0 = 0"
  by (simp add: listener0_def)

lemma opened_stream:
  "h_stream listener0 < length (streams opened)"
  "\<not> destroyed (streams opened ! h_stream listener0)"
  by (simp_all add: opened_fields)


lemma boundary_examples:
  "line_boundary (js ''ls -la'' @ [13])" "line_boundary [13]" "line_boundary (js ''pwd'' @ [10])"
  "line_boundary [10]" "\<not> line_boundary (js ''ls -la'')" "\<not> line_boundary (js ''pwd'')"
  "\<not> line_boundary (js ''ls'')"
  by (simp_all add: line_boundary_def str_includes_def js_def)

lemma trim_examples:
  "trim [] = []" "trim (js ''ls -la'') = js ''ls -la''" "trim (js ''pwd'') = js ''pwd''"
  "trim (js ''ls'') = js ''ls''" "js ''ls -la'' \<noteq> []" "js ''pwd'' \<noteq> []" "js ''ls'' \<noteq> []"
  by (simp_all add: string_eval)

lemma typed_ls_eq: "typed_ls = ssh_input listener0 (saved_at 1) (js ''ls'') opened"
  by (simp add: typed_ls_def opened_listener)

lemma typed_ls_fields:
  "input_handlers typed_ls = [listener0]"
  "streams typed_ls = [\<lparr>destroyed = False, written = [js ''ls'']\<rparr>]"
  "commandBuffer typed_ls = js ''ls''"
  "currentSession typed_ls = Some session0"
  "logged typed_ls = []"
  "pending typed_ls = []"
  "unhandled typed_ls = []"
  "timers typed_ls = 0"
  "next_id typed_ls = 1"
  "emitted typed_ls = [SshConnected host0 (JStr (js ''student''))]"
  "commands typed_ls = Map.empty"
proof -
  have n: "\<not> (line_boundary (js ''ls'') \<and> trim (commandBuffer opened) \<noteq> []
              \<and> currentSession opened \<noteq> None)"
    by (simp add: boundary_examples)
  show "input_handlers typed_ls = [listener0]"
    "streams typed_ls = [\<lparr>destroyed = False, written = [js ''ls'']\<rparr>]"
    "commandBuffer typed_ls = js ''ls''"
    "currentSession typed_ls = Some session0"
    "logged typed_ls = []"
    "pending typed_ls = []"
    "unhandled typed_ls = []"
    "timers typed_ls = 0"
    "next_id typed_ls = 1"
    "emitted typed_ls = [SshConnected host0 (JStr (js ''student''))]"
    "commands typed_ls = Map.empty"
    unfolding typed_ls_eq
    using ssh_input_open [OF opened_stream, of "saved_at 1" "js ''ls''"]
      ssh_input_rest [OF opened_stream n, of "saved_at 1"]
    by (simp_all add: opened_listener boundary_examples opened_fields opened_eq)
qed

lemma typed_ls_stream:
  "h_stream listener0 < length (streams typed_ls)"
  "\<not> destroyed (streams typed_ls ! h_stream listener0)"
  by (simp_all add: typed_ls_fields)

lemma entered_ls_fields:
  "input_handlers entered_ls = [listener0]"
  "streams entered_ls = [\<lparr>destroyed = False, written = [js ''ls'', [13]]\<rparr>]"
  "commandBuffer entered_ls = []"
  "logged entered_ls = []"
  "pending entered_ls = []"
  "unhandled entered_ls = []"
  "timers entered_ls = 1"
  "currentCommand entered_ls \<noteq> None"
  "emitted entered_ls = [SshConnected host0 (JStr (js ''student''))]"
  unfolding entered_ls_def
  using one_at_a_time_open [OF typed_ls_fields(1) typed_ls_stream, of "saved_at 2" "[13]"]
    one_at_a_time_session [OF typed_ls_fields(1) typed_ls_stream typed_ls_fields(4,6),
      of "saved_at 2" "[13]"]
  by (simp_all add: typed_ls_fields boundary_examples trim_examples saved_at_def)



subsection \<open>Chunks that arrive while a save is awaited, and a second listener\<close>

text \<open>
  The buffer is emptied only when the listener resumes after its two saves. A chunk that
  arrives before that is appended to the text of the line just ended: when \<open>ls\<close>, Enter,
  \<open>pwd\<close>, Enter arrive before the first save has completed, the commands stored are
  \<open>ls\<close> and \<open>lspwd\<close>.
\<close>

lemma fire_input_single:
  "input_handlers s = [h] \<Longrightarrow> fire s (SshInput (\<lambda>i. env) input) = ssh_input h env input s"
  by simp

lemma listener_stream_kept:
  assumes "h_stream h < length (streams s)" and "\<not> destroyed (streams s ! h_stream h)"
  shows "h_stream h < length (streams (ssh_input h env input s))"
    and "\<not> destroyed (streams (ssh_input h env input s) ! h_stream h)"
  using assms by (simp_all add: ssh_input_streams)

lemma run_settles:
  "commands (run s (map Settle ks)) = commands s"
  "next_id (run s (map Settle ks)) = next_id s"
  by (induction ks arbitrary: s) (simp_all add: settle_frame)

lemma back_to_back_chunks:
  "commandBuffer (run opened [SshInput (\<lambda>i. saved_at 1) (js ''ls''),
       SshInput (\<lambda>i. saved_at 2) [13], SshInput (\<lambda>i. saved_at 3) (js ''pwd'')]) = js ''lspwd''"
  "map (map_option command)
     (issued_between opened
        (run opened ([SshInput (\<lambda>i. saved_at 1) (js ''ls''), SshInput (\<lambda>i. saved_at 2) [13],
                      SshInput (\<lambda>i. saved_at 3) (js ''pwd''), SshInput (\<lambda>i. saved_at 4) [13]]
                     @ map Settle [0, 0, 0, 0])))
     = [Some (js ''ls''), Some (js ''lspwd'')]"
proof -
  define t2 where "t2 = ssh_input listener0 (saved_at 2) [13] typed_ls"
  define t3 where "t3 = ssh_input listener0 (saved_at 3) (js ''pwd'') t2"
  define t4 where "t4 = ssh_input listener0 (saved_at 4) [13] t3"
  have c1: "trim (commandBuffer typed_ls) \<noteq> []"
    by (simp add: typed_ls_fields trim_examples)
  note o2 = listener_stream_kept [OF typed_ls_stream, of "saved_at 2" "[13]", folded t2_def]
  note A2 = ssh_input_open [OF typed_ls_stream, of "saved_at 2" "[13]", folded t2_def]
  note C2 = ssh_input_command [OF typed_ls_stream boundary_examples(2) c1 typed_ls_fields(4),
      of "saved_at 2", folded t2_def]
  have n3: "\<not> (line_boundary (js ''pwd'') \<and> trim (commandBuffer t2) \<noteq> []
               \<and> currentSession t2 \<noteq> None)"
    by (simp add: boundary_examples)
  note o3 = listener_stream_kept [OF o2, of "saved_at 3" "js ''pwd''", folded t3_def]
  note A3 = ssh_input_open [OF o2, of "saved_at 3" "js ''pwd''", folded t3_def]
  note R3 = ssh_input_rest [OF o2 n3, of "saved_at 3", folded t3_def]
  have "commandBuffer t3 = js ''ls'' @ js ''pwd''"
    using R3(1) C2(1) by (simp add: boundary_examples typed_ls_fields)
  then have b3: "commandBuffer t3 = js ''lspwd''"
    by (simp add: js_def)
  have c3: "trim (commandBuffer t3) \<noteq> []" "trim (commandBuffer t3) = js ''lspwd''"
    unfolding b3 by (simp_all add: string_eval)
  have s3: "currentSession t3 = Some session0"
    using A3(6) A2(6) by (simp add: typed_ls_fields)
  note C4 = ssh_input_command [OF o3 boundary_examples(2) c3(1) s3, of "saved_at 4",
      folded t4_def]
  have h: "input_handlers typed_ls = [listener0]" "input_handlers t2 = [listener0]"
    "input_handlers t3 = [listener0]"
    using A2(2) A3(2) by (simp_all add: typed_ls_fields)
  have e: "fire opened (SshInput (\<lambda>i. saved_at 1) (js ''ls'')) = typed_ls"
    "fire typed_ls (SshInput (\<lambda>i. saved_at 2) [13]) = t2"
    "fire t2 (SshInput (\<lambda>i. saved_at 3) (js ''pwd'')) = t3"
    "fire t3 (SshInput (\<lambda>i. saved_at 4) [13]) = t4"
    unfolding t2_def t3_def t4_def
    by (simp add: typed_ls_def) (rule fire_input_single, simp add: h [unfolded t2_def t3_def])+
  have r3: "run opened [SshInput (\<lambda>i. saved_at 1) (js ''ls''),
       SshInput (\<lambda>i. saved_at 2) [13], SshInput (\<lambda>i. saved_at 3) (js ''pwd'')] = t3"
    by (simp only: run_Cons run_Nil e)
  show "commandBuffer (run opened [SshInput (\<lambda>i. saved_at 1) (js ''ls''),
       SshInput (\<lambda>i. saved_at 2) [13], SshInput (\<lambda>i. saved_at 3) (js ''pwd'')]) = js ''lspwd''"
    unfolding r3 by (rule b3)
  have r4: "run opened ([SshInput (\<lambda>i. saved_at 1) (js ''ls''), SshInput (\<lambda>i. saved_at 2) [13],
                      SshInput (\<lambda>i. saved_at 3) (js ''pwd''), SshInput (\<lambda>i. saved_at 4) [13]]
                     @ map Settle [0, 0, 0, 0]) = run t4 (map Settle [0, 0, 0, 0])"
    unfolding run_append by (simp only: run_Cons run_Nil e)
  have n: "next_id t4 = 3" "next_id t2 = 2"
    using C4(2) R3(2) C2(2) by (simp_all add: typed_ls_fields)
  have k1: "map_option command (commands t4 1) = Some (js ''ls'')"
    using C4(3) R3(2,3) C2(2,3)
    by (simp add: typed_ls_fields saved_at_def trim_examples)
  have k2: "map_option command (commands t4 2) = Some (js ''lspwd'')"
    using C4(3) R3(2,3) C2(2,3) c3(2)
    by (simp add: typed_ls_fields saved_at_def)
  have u: "[1 ..< 3] = [1, 2 :: nat]"
    by (simp add: upt_rec)
  show "map (map_option command)
     (issued_between opened
        (run opened ([SshInput (\<lambda>i. saved_at 1) (js ''ls''), SshInput (\<lambda>i. saved_at 2) [13],
                      SshInput (\<lambda>i. saved_at 3) (js ''pwd''), SshInput (\<lambda>i. saved_at 4) [13]]
                     @ map Settle [0, 0, 0, 0])))
     = [Some (js ''ls''), Some (js ''lspwd'')]"
    unfolding r4 issued_between_def run_settles n opened_fields u
    using k1 k2 by simp
qed

text \<open>
  Every accepted connect request registers one more input listener, and all of them share
  the buffer: after a second connect request, the chunk \<open>ls\<close> is appended twice.
\<close>

lemma two_listeners_buffer:
  "length (input_handlers (fire opened (Connect ssh_connect (env_ok 10) request0))) = 2"
  "commandBuffer (run opened [Connect ssh_connect (env_ok 10) request0,
                              SshInput (\<lambda>i. saved_at 11) (js ''ls'')]) = js ''lsls''"
proof -
  have c: "connect_ok (env_ok 10)" by (simp add: env_ok_def)
  define listener1 where
    "listener1 = \<lparr>h_stream = 1, h_userData = extractUserData request0, h_host = host0\<rparr>"
  define s2 where "s2 = fire opened (Connect ssh_connect (env_ok 10) request0)"
  have f: "input_handlers s2 = [listener0, listener1]"
    "streams s2 = [\<lparr>destroyed = False, written = []\<rparr>, \<lparr>destroyed = False, written = []\<rparr>]"
    "commandBuffer s2 = []"
    unfolding s2_def fire.simps handleSSHConnect_def
      handleSSHConnect_try_accepted [OF request0_props(1-4) c]
    by (simp_all add: Let_def opened_fields env_ok_def listener1_def request0_props(5-7))
  show "length (input_handlers (fire opened (Connect ssh_connect (env_ok 10) request0))) = 2"
    using f(1) by (simp add: s2_def)
  define s3 where "s3 = ssh_input listener0 (saved_at 11) (js ''ls'') s2"
  have o0: "h_stream listener0 < length (streams s2)"
    "\<not> destroyed (streams s2 ! h_stream listener0)"
    by (simp_all add: f)
  have n0: "\<not> (line_boundary (js ''ls'') \<and> trim (commandBuffer s2) \<noteq> []
               \<and> currentSession s2 \<noteq> None)"
    by (simp add: boundary_examples)
  note R0 = ssh_input_rest [OF o0 n0, of "saved_at 11", folded s3_def]
  have o1: "h_stream listener1 < length (streams s3)"
    "\<not> destroyed (streams s3 ! h_stream listener1)"
    unfolding s3_def by (simp_all add: ssh_input_streams f listener1_def)
  have n1: "\<not> (line_boundary (js ''ls'') \<and> trim (commandBuffer s3) \<noteq> []
               \<and> currentSession s3 \<noteq> None)"
    by (simp add: boundary_examples)
  note R1 = ssh_input_rest [OF o1 n1, of "saved_at 11"]
  have r: "run opened [Connect ssh_connect (env_ok 10) request0,
                       SshInput (\<lambda>i. saved_at 11) (js ''ls'')]
           = ssh_input listener1 (saved_at 11) (js ''ls'') s3"
  proof -
    have "fire s2 (SshInput (\<lambda>i. saved_at 11) (js ''ls''))
          = ssh_input listener1 (saved_at 11) (js ''ls'') s3"
      by (simp add: f(1) s3_def)
    then show ?thesis by (simp only: run_Cons run_Nil s2_def [symmetric])
  qed
  show "commandBuffer (run opened [Connect ssh_connect (env_ok 10) request0,
                              SshInput (\<lambda>i. saved_at 11) (js ''ls'')]) = js ''lsls''"
  proof -
    have "commandBuffer (ssh_input listener1 (saved_at 11) (js ''ls'') s3) = js ''ls'' @ js ''ls''"
      using R1(1) R0(1) by (simp add: boundary_examples f)
    then show ?thesis unfolding r by (simp add: js_def)
  qed
qed

section \<open>Listeners and their streams\<close>

lemma handleSessionEnd_frame:
  "streams (handleSessionEnd t r s) = streams s"
  "input_handlers (handleSessionEnd t r s) = input_handlers s"
  by (cases "currentSession s"; simp add: handleSessionEnd_None handleSessionEnd_Some)+

lemma listeners_ok_connect:
  assumes "listeners_ok s"
  shows "listeners_ok (handleSSHConnect env cd s)"
proof (cases "truthy (getProp cd ''host'') \<and> truthy (getProp cd ''username'')
      \<and> truthy (getProp cd ''password'') \<and> truthy (getProp (extractUserData cd) ''id'')")
  case False
  then have "\<not> truthy (getProp cd ''host'') \<or> \<not> truthy (getProp cd ''username'')
           \<or> \<not> truthy (getProp cd ''password'') \<or> \<not> truthy (getProp (extractUserData cd) ''id'')"
    by blast
  from connect_try_rejected [OF this, of env s] assms show ?thesis
    by (auto simp: handleSSHConnect_def listeners_ok_def)
next
  case True
  show ?thesis
  proof (cases "connect_ok env")
    case False
    with True truthy_getProp [of cd "''host''"] truthy_getProp [of "extractUserData cd" "''id''"]
    have "handleSSHConnect_try env cd s = Inl (ConnectFailed, s)"
      by (simp add: handleSSHConnect_try_def Let_def)
    with assms show ?thesis by (simp add: handleSSHConnect_def listeners_ok_def)
  next
    case c: True
    from True have a: "truthy (getProp cd ''host'')" "truthy (getProp cd ''username'')"
      "truthy (getProp cd ''password'')" "truthy (getProp (extractUserData cd) ''id'')"
      by simp_all
    show ?thesis
      using assms
      by (auto simp: handleSSHConnect_def handleSSHConnect_try_accepted [OF a c] Let_def
          listeners_ok_def)
  qed
qed

lemma listeners_ok_fire:
  assumes "listeners_ok s"
  shows "listeners_ok (fire s ev)"
proof (cases ev)
  case (Connect name env cd)
  with assms show ?thesis by (simp add: listeners_ok_connect)
next
  case (SshInput envs input)
  from assms have d: "distinct (map h_stream (input_handlers s))"
    by (simp add: listeners_ok_def)
  from dispatch_input_streams [OF d, of envs input 0 s] assms SshInput show ?thesis
    by (simp add: listeners_ok_def)
next
  case (StreamData h data)
  with assms show ?thesis
    by (auto simp: stream_on_data_def Let_def listeners_ok_def split: option.splits)
next
  case (StreamClose h now r)
  with assms show ?thesis
    by (simp add: stream_on_close_def handleSessionEnd_frame listeners_ok_def)
next
  case (StreamError h)
  with assms show ?thesis by (simp add: stream_on_error_def listeners_ok_def)
next
  case (UserDisconnect now r)
  with assms show ?thesis
    by (simp add: user_disconnect_def handleSessionEnd_frame listeners_ok_def)
next
  case (SocketDisconnect now r)
  with assms show ?thesis
    by (simp add: socket_disconnect_def handleSessionEnd_frame listeners_ok_def)
next
  case (CaptureTimeout r)
  with assms show ?thesis
    by (auto simp: capture_timeout_def listeners_ok_def split: option.splits)
next
  case (Settle k)
  with assms show ?thesis by (simp add: listeners_ok_def settle_frame)
qed

lemma listeners_ok_run: "listeners_ok s \<Longrightarrow> listeners_ok (run s evs)"
  by (induction evs arbitrary: s) (simp_all add: listeners_ok_fire)

lemma listeners_ok_reachable: "listeners_ok (run (connection sid ss cs reg n) evs)"
  by (rule listeners_ok_run) (simp add: listeners_ok_def connection_def)

text \<open>
  Forwarding. In every state that a connection reaches, every chunk sent to an open
  session is written to the shell stream, once and in order, whatever the outcomes of
  the saves: after any sequence of input events the stream of a listener has received
  exactly the chunks of those events, and it is still open. A failed save of a Command
  (or of the session after it) inside the listener is caught there: nothing is sent to
  the client, no rejection is left unhandled, and the error is logged.
\<close>

lemma chunks_forwarded:
  assumes "s = run (connection sid ss cs reg n) evs"
    and "h \<in> set (input_handlers s)" and "\<not> destroyed (streams s ! h_stream h)"
  shows "written (streams (run s (map (\<lambda>(envs, input). SshInput envs input) ys)) ! h_stream h)
           = written (streams s ! h_stream h) @ map snd ys"
    and "\<not> destroyed (streams (run s (map (\<lambda>(envs, input). SshInput envs input) ys)) ! h_stream h)"
    and "emitted (ssh_input h env input s) = emitted s"
    and "unhandled (ssh_input h env input s) = unhandled s"
proof -
  have ok: "listeners_ok s" unfolding assms(1) by (rule listeners_ok_reachable)
  then have d: "distinct (map h_stream (input_handlers s))"
    and l: "h_stream h < length (streams s)"
    using assms(2) by (simp_all add: listeners_ok_def)
  show "written (streams (run s (map (\<lambda>(envs, input). SshInput envs input) ys)) ! h_stream h)
           = written (streams s ! h_stream h) @ map snd ys"
    "\<not> destroyed (streams (run s (map (\<lambda>(envs, input). SshInput envs input) ys)) ! h_stream h)"
    using run_inputs_streams [OF d assms(2) l assms(3), of ys] by blast+
  show "emitted (ssh_input h env input s) = emitted s"
    "unhandled (ssh_input h env input s) = unhandled s"
    by (rule ssh_input_open [OF l assms(3)])+
qed

lemma listener_save_caught:
  assumes "input_handlers s = [h]"
    and "h_stream h < length (streams s)" and "\<not> destroyed (streams s ! h_stream h)"
    and "currentSession s \<noteq> None" and "pending s = []"
    and "line_boundary input" and "trim (commandBuffer s) \<noteq> []"
    and "command_saved env \<noteq> Saved \<or> session_resaved env \<noteq> Saved"
  shows "logged (run s (one_at_a_time env input)) = logged s @ [SaveFailed]"
    and "unhandled (run s (one_at_a_time env input)) = unhandled s"
    and "emitted (run s (one_at_a_time env input)) = emitted s"
proof -
  from assms(4) obtain sess where c: "currentSession s = Some sess" by blast
  show "logged (run s (one_at_a_time env input)) = logged s @ [SaveFailed]"
    using one_at_a_time_session(6) [OF assms(1,2,3) c assms(5), of env input] assms(6,7,8)
    by simp
  show "unhandled (run s (one_at_a_time env input)) = unhandled s"
    "emitted (run s (one_at_a_time env input)) = emitted s"
    by (rule one_at_a_time_open [OF assms(1,2,3)])+
qed

lemma served_stopped: "unhandled s \<noteq> [] \<Longrightarrow> served s evs = s"
  by (induction evs) (simp_all add: served_def serve_def)

lemma served_Cons:
  "unhandled s = [] \<Longrightarrow> served s (ev # evs) = served (fire s ev) evs"
  by (simp add: served_def serve_def)

lemma served_Nil [simp]: "served s [] = s"
  by (simp add: served_def)

text \<open>
  Claim C7. The chunk is written to the shell stream before anything else, and the first
  save of a Command sits in a \<open>try\<close> whose \<open>catch\<close> logs the error (the lemmas before).
  The same Command is saved a second time, in the callback of the capture timer, outside
  every \<open>try\<close>: when that save fails, the error is not caught and not logged; the rejection
  is left unhandled, and a process that ends at an unhandled rejection serves no event
  after it, so the chunks that follow are not forwarded.
\<close>

theorem capture_save_unhandled:
  assumes "0 < timers s" and "currentCommand s \<noteq> None" and "r \<noteq> Saved"
  shows "unhandled (fire s (CaptureTimeout r)) = unhandled s @ [SaveFailed]
       \<and> logged (fire s (CaptureTimeout r)) = logged s
       \<and> emitted (fire s (CaptureTimeout r)) = emitted s
       \<and> streams (served (fire s (CaptureTimeout r)) evs) = streams s"
proof -
  from assms(2) obtain c where c: "currentCommand s = Some c" by blast
  have f: "fire s (CaptureTimeout r)
             = s\<lparr>timers := timers s - 1, unhandled := unhandled s @ [SaveFailed]\<rparr>"
    using assms(1,3) c by (simp add: capture_timeout_def command_save_cases)
  have "unhandled (fire s (CaptureTimeout r)) \<noteq> []"
    unfolding f by simp
  from served_stopped [OF this, of evs]
  have "served (fire s (CaptureTimeout r)) evs
          = s\<lparr>timers := timers s - 1, unhandled := unhandled s @ [SaveFailed]\<rparr>"
    by (simp only: f)
  then show ?thesis
    by (simp only: f) simp
qed

theorem capture_save_unhandled_witness:
  "unhandled (fire entered_ls (CaptureTimeout WriteError)) = [SaveFailed]
   \<and> logged (fire entered_ls (CaptureTimeout WriteError)) = []
   \<and> emitted (fire entered_ls (CaptureTimeout WriteError)) = emitted entered_ls
   \<and> written (streams (served (fire entered_ls (CaptureTimeout WriteError))
                  [SshInput (\<lambda>i. saved_at 5) (js ''pwd'')]) ! 0) = [js ''ls'', [13]]
   \<and> written (streams (served entered_ls [SshInput (\<lambda>i. saved_at 5) (js ''pwd'')]) ! 0)
       = [js ''ls'', [13], js ''pwd'']"
proof -
  have t: "0 < timers entered_ls" "currentCommand entered_ls \<noteq> None" "WriteError \<noteq> Saved"
    by (simp_all add: entered_ls_fields)
  have o: "h_stream listener0 < length (streams entered_ls)"
    "\<not> destroyed (streams entered_ls ! h_stream listener0)"
    by (simp_all add: entered_ls_fields)
  have "served entered_ls [SshInput (\<lambda>i. saved_at 5) (js ''pwd'')]
         = ssh_input listener0 (saved_at 5) (js ''pwd'') entered_ls"
    by (simp add: served_Cons entered_ls_fields)
  then have w: "written (streams (served entered_ls [SshInput (\<lambda>i. saved_at 5) (js ''pwd'')]) ! 0)
       = [js ''ls'', [13], js ''pwd'']"
    by (simp add: ssh_input_open(1) [OF o] entered_ls_fields)
  from capture_save_unhandled [OF t, of "[SshInput (\<lambda>i. saved_at 5) (js ''pwd'')]"] w
  show ?thesis
    by (simp add: entered_ls_fields)
qed

section \<open>Shell output\<close>

lemma wellFormed_shapes:
  assumes "wellFormed (x # xs)"
  shows "(x < 0x80 \<and> wellFormed xs)
       \<or> (\<not> x < 0x80 \<and> 0xC2 \<le> x \<and> x \<le> 0xDF
            \<and> (\<exists>c r. xs = c # r \<and> continuation c \<and> wellFormed r))
       \<or> (\<not> x < 0x80 \<and> \<not> (0xC2 \<le> x \<and> x \<le> 0xDF) \<and> 0xE0 \<le> x \<and> x \<le> 0xEF
            \<and> (\<exists>c d r. xs = c # d # r \<and> second_of_3 x c \<and> continuation d \<and> wellFormed r))
       \<or> (\<not> x < 0x80 \<and> \<not> (0xC2 \<le> x \<and> x \<le> 0xDF) \<and> \<not> (0xE0 \<le> x \<and> x \<le> 0xEF)
            \<and> 0xF0 \<le> x \<and> x \<le> 0xF4
            \<and> (\<exists>c d e r. xs = c # d # e # r \<and> second_of_4 x c \<and> continuation d
                  \<and> continuation e \<and> wellFormed r))"
proof (cases "x < 0x80")
  case True
  with assms show ?thesis by (simp only: wellFormed.simps if_True simp_thms)
next
  case n1: False
  show ?thesis
  proof (cases "0xC2 \<le> x \<and> x \<le> 0xDF")
    case True
    with assms n1 have "case xs of [] \<Rightarrow> False | c # cs \<Rightarrow> continuation c \<and> wellFormed cs"
      by (simp only: wellFormed.simps if_True if_False)
    then have "\<exists>c r. xs = c # r \<and> continuation c \<and> wellFormed r"
      by (cases xs) simp_all
    with n1 True show ?thesis by blast
  next
    case n2: False
    show ?thesis
    proof (cases "0xE0 \<le> x \<and> x \<le> 0xEF")
      case True
      with assms n1 n2 have "case xs of c # d # ds \<Rightarrow> second_of_3 x c \<and> continuation d \<and> wellFormed ds
             | _ \<Rightarrow> False"
        by (simp only: wellFormed.simps if_True if_False)
      then have "\<exists>c d r. xs = c # d # r \<and> second_of_3 x c \<and> continuation d \<and> wellFormed r"
        by (simp split: list.splits)
      with n1 n2 True show ?thesis by blast
    next
      case n3: False
      show ?thesis
      proof (cases "0xF0 \<le> x \<and> x \<le> 0xF4")
        case True
        with assms n1 n2 n3 have "case xs of c # d # e # es \<Rightarrow>
               second_of_4 x c \<and> continuation d \<and> continuation e \<and> wellFormed es
             | _ \<Rightarrow> False"
          by (simp only: wellFormed.simps if_True if_False)
        then have "\<exists>c d e r. xs = c # d # e # r \<and> second_of_4 x c \<and> continuation d
                  \<and> continuation e \<and> wellFormed r"
          by (simp split: list.splits)
        with n1 n2 n3 True show ?thesis by blast
      next
        case False
        with assms n1 n2 n3 have False
          by (simp only: wellFormed.simps if_True if_False)
        then show ?thesis ..
      qed
    qed
  qed
qed

lemma Buffer_toString_1: "x < 0x80 \<Longrightarrow> Buffer_toString (x # r) = unat x # Buffer_toString r"
  by (subst Buffer_toString.simps) (simp only: if_True)

lemma Buffer_toString_2:
  "\<not> x < 0x80 \<Longrightarrow> 0xC2 \<le> x \<and> x \<le> 0xDF \<Longrightarrow> continuation c \<Longrightarrow>
   Buffer_toString (x # c # r) = unit2 x c # Buffer_toString r"
  by (subst Buffer_toString.simps) (simp only: if_True if_False list.case simp_thms)

lemma Buffer_toString_3:
  "\<not> x < 0x80 \<Longrightarrow> \<not> (0xC2 \<le> x \<and> x \<le> 0xDF) \<Longrightarrow> 0xE0 \<le> x \<and> x \<le> 0xEF \<Longrightarrow>
   second_of_3 x c \<Longrightarrow> continuation d \<Longrightarrow>
   Buffer_toString (x # c # d # r) = unit3 x c d # Buffer_toString r"
  by (subst Buffer_toString.simps) (simp only: if_True if_False list.case simp_thms)

lemma Buffer_toString_4:
  "\<not> x < 0x80 \<Longrightarrow> \<not> (0xC2 \<le> x \<and> x \<le> 0xDF) \<Longrightarrow> \<not> (0xE0 \<le> x \<and> x \<le> 0xEF) \<Longrightarrow>
   0xF0 \<le> x \<and> x \<le> 0xF4 \<Longrightarrow> second_of_4 x c \<Longrightarrow> continuation d \<Longrightarrow> continuation e \<Longrightarrow>
   Buffer_toString (x # c # d # e # r) = units4 x c d e @ Buffer_toString r"
  by (subst Buffer_toString.simps) (simp only: if_True if_False list.case simp_thms)

lemma Buffer_toString_append:
  "wellFormed a \<Longrightarrow> Buffer_toString (a @ b) = Buffer_toString a @ Buffer_toString b"
proof (induction a rule: length_induct)
  case (1 a)
  show ?case
  proof (cases a)
    case Nil
    then show ?thesis by (simp only: append_Nil Buffer_toString.simps)
  next
    case (Cons x xs)
    from wellFormed_shapes [OF "1.prems" [unfolded Cons]]
    consider (one) "x < 0x80" "wellFormed xs"
      | (two) c r where "\<not> x < 0x80" "0xC2 \<le> x \<and> x \<le> 0xDF" "xs = c # r" "continuation c"
          "wellFormed r"
      | (three) c d r where "\<not> x < 0x80" "\<not> (0xC2 \<le> x \<and> x \<le> 0xDF)" "0xE0 \<le> x \<and> x \<le> 0xEF"
          "xs = c # d # r" "second_of_3 x c" "continuation d" "wellFormed r"
      | (four) c d e r where "\<not> x < 0x80" "\<not> (0xC2 \<le> x \<and> x \<le> 0xDF)"
          "\<not> (0xE0 \<le> x \<and> x \<le> 0xEF)" "0xF0 \<le> x \<and> x \<le> 0xF4" "xs = c # d # e # r"
          "second_of_4 x c" "continuation d" "continuation e" "wellFormed r"
      by blast
    then show ?thesis
    proof cases
      case one
      have "length xs < length a" using Cons by simp
      with "1.IH" one(2) have "Buffer_toString (xs @ b) = Buffer_toString xs @ Buffer_toString b"
        by blast
      then show ?thesis
        unfolding Cons append_Cons Buffer_toString_1 [OF one(1)] by simp
    next
      case two
      have "length r < length a" using Cons two(3) by simp
      with "1.IH" two(5) have "Buffer_toString (r @ b) = Buffer_toString r @ Buffer_toString b"
        by blast
      then show ?thesis
        unfolding Cons two(3) append_Cons Buffer_toString_2 [OF two(1,2,4)] by simp
    next
      case three
      have "length r < length a" using Cons three(4) by simp
      with "1.IH" three(7) have "Buffer_toString (r @ b) = Buffer_toString r @ Buffer_toString b"
        by blast
      then show ?thesis
        unfolding Cons three(4) append_Cons Buffer_toString_3 [OF three(1,2,3,5,6)] by simp
    next
      case four
      have "length r < length a" using Cons four(5) by simp
      with "1.IH" four(9) have "Buffer_toString (r @ b) = Buffer_toString r @ Buffer_toString b"
        by blast
      then show ?thesis
        unfolding Cons four(5) append_Cons Buffer_toString_4 [OF four(1,2,3,4,6,7,8)] by simp
    qed
  qed
qed

lemma Buffer_toString_concat:
  "\<forall>d \<in> set chunks. wellFormed d \<Longrightarrow>
   concat (map Buffer_toString chunks) = Buffer_toString (concat chunks)"
  by (induction chunks) (simp_all add: Buffer_toString_append)

lemma stream_on_data_fields:
  "emitted (stream_on_data d s) = emitted s @ [SshOutput (Buffer_toString d)]"
  "streams (stream_on_data d s) = streams s"
  by (simp_all add: stream_on_data_def Let_def split: option.splits)

lemma run_data:
  assumes "h < length (streams s)" and "\<not> destroyed (streams s ! h)"
  shows "emitted (run s (map (StreamData h) chunks))
           = emitted s @ map (\<lambda>d. SshOutput (Buffer_toString d)) chunks"
  using assms
proof (induction chunks arbitrary: s)
  case Nil
  show ?case by simp
next
  case (Cons d chunks)
  have 1: "h < length (streams (stream_on_data d s))"
    "\<not> destroyed (streams (stream_on_data d s) ! h)"
    using Cons.prems by (simp_all add: stream_on_data_fields)
  from Cons.IH [OF 1] Cons.prems show ?case
    by (simp add: stream_on_data_fields)
qed

lemma output_payloads_append:
  "output_payloads (es @ es') = output_payloads es @ output_payloads es'"
  by (induction es rule: output_payloads.induct) simp_all

lemma output_payloads_outputs:
  "output_payloads (map (\<lambda>d. SshOutput (f d)) chunks) = map f chunks"
  by (induction chunks) simp_all

text \<open>
  Claim C9, as amended. Every chunk that the shell stream of an open session delivers is
  decoded to text (\<open>data.toString()\<close>, UTF-8) and sent as one \<open>"ssh-output"\<close> event as it
  arrives: the events emitted for a sequence of chunks are the decoded chunks, one event
  per chunk, in the order of arrival, with nothing held back, merged, reordered or
  dropped. When every chunk is well-formed UTF-8 on its own, the concatenation of the
  emitted payloads is the decoding of the concatenation of the bytes read.
\<close>

theorem output_relayed:
  assumes "h < length (streams s)" and "\<not> destroyed (streams s ! h)"
  shows "emitted (run s (map (StreamData h) chunks))
           = emitted s @ map (\<lambda>d. SshOutput (Buffer_toString d)) chunks
       \<and> ((\<forall>d \<in> set chunks. wellFormed d) \<longrightarrow>
            concat (output_payloads (emitted (run s (map (StreamData h) chunks))))
              = concat (output_payloads (emitted s)) @ Buffer_toString (concat chunks))"
  by (simp add: run_data [OF assms] output_payloads_append output_payloads_outputs
      Buffer_toString_concat)

lemma decode_examples:
  "Buffer_toString [0xC3] = [0xFFFD]" "Buffer_toString [0xA9] = [0xFFFD]"
  "Buffer_toString [0xC3, 0xA9] = [0xE9]" "Buffer_toString [0x6C, 0x73] = [0x6C, 0x73]"
  "wellFormed [0xC3, 0xA9]" "wellFormed [0x6C, 0x73]"
  by (simp_all add: continuation_def unit2_def)

lemma opened_stream0:
  "0 < length (streams opened)" "\<not> destroyed (streams opened ! 0)"
  by (simp_all add: opened_fields)

theorem output_relayed_witness:
  "emitted (run opened (map (StreamData 0) [[0xC3, 0xA9], [0x6C, 0x73]]))
     = emitted opened @ [SshOutput [0xE9], SshOutput [0x6C, 0x73]]
   \<and> concat (output_payloads (emitted (run opened (map (StreamData 0) [[0xC3, 0xA9], [0x6C, 0x73]]))))
     = [0xE9, 0x6C, 0x73]"
proof -
  have w: "\<forall>d \<in> set [[0xC3, 0xA9], [0x6C, 0x73 :: 8 word]]. wellFormed d"
    by (simp add: continuation_def)
  have c: "Buffer_toString (concat [[0xC3, 0xA9], [0x6C, 0x73]]) = [0xE9, 0x6C, 0x73]"
    by (simp add: continuation_def unit2_def)
  from output_relayed [OF opened_stream0, of "[[0xC3, 0xA9], [0x6C, 0x73]]"] w
  show ?thesis
    unfolding c by (simp add: decode_examples opened_fields continuation_def unit2_def)
qed

text \<open>
  Claim C9 as stated fails: when a chunk boundary falls inside a multi-byte character,
  each half is decoded on its own. The two bytes of \<open>U+00E9\<close>, read as two chunks, are
  emitted as two replacement characters, not as the character that the bytes encode.
\<close>

theorem output_relayed_counterexample:
  "concat (output_payloads (emitted (run opened [StreamData 0 [0xC3], StreamData 0 [0xA9]])))
     = [0xFFFD, 0xFFFD]
   \<and> Buffer_toString (concat [[0xC3], [0xA9]]) = [0xE9]"
proof -
  from run_data [OF opened_stream0, of "[[0xC3], [0xA9]]"]
  have e: "emitted (run opened [StreamData 0 [0xC3], StreamData 0 [0xA9]])
      = emitted opened @ [SshOutput [0xFFFD], SshOutput [0xFFFD]]"
    by (simp add: decode_examples)
  show ?thesis
    unfolding e by (simp add: opened_fields continuation_def unit2_def)
qed

section \<open>The terminal page\<close>

lemma initializeTerminal_guard:
  "globalIsInitialized t \<Longrightarrow>
     \<exists>t'. initializeTerminal d t = Inr t'
       \<and> terminals t' = terminals t
       \<and> client_sockets t' = client_sockets t
       \<and> globalTerminalInstance t' = globalTerminalInstance t
       \<and> globalSocketInstance t' = globalSocketInstance t
       \<and> globalIsInitialized t'"
  by (simp add: initializeTerminal_def)

lemma drop_global_socket_fields:
  "globalIsInitialized (drop_global_socket t) = globalIsInitialized t"
  "terminals (drop_global_socket t) = terminals t"
  "length (client_sockets (drop_global_socket t)) = length (client_sockets t)"
  by (simp_all add: drop_global_socket_def split: option.splits)

lemma initializeTerminal_sets_flag: "globalIsInitialized (reached (initializeTerminal d t))"
  by (simp add: initializeTerminal_def reached_def Let_def setupTerminalInputHandlers_def
      setupSocketEventListeners_def drop_global_socket_fields)

lemma initializeTerminal_new_tab:
  assumes "\<not> nullish d"
  shows "\<exists>t1. initializeTerminal d (new_tab m) = Inr t1
     \<and> terminals t1 = [\<lparr>t_disposed = False, t_opened = m\<rparr>]
     \<and> client_sockets t1
         = [\<lparr>k_connected = False, k_listeners = 7, k_closed = False,
             k_userId = orElse (getProp d ''userId'') (JStr []),
             k_userName = orElse (getProp d ''userName'') (JStr []),
             k_userRole = orElse (getProp d ''userRole'') (JStr (js ''student''))\<rparr>]
     \<and> globalTerminalInstance t1 = (if m then Some 0 else None)
     \<and> globalSocketInstance t1 = Some 0
     \<and> globalIsInitialized t1"
  using assms
  by (simp add: initializeTerminal_def Let_def setupTerminalInputHandlers_def
      setupSocketEventListeners_def drop_global_socket_def new_tab_def)

text \<open>
  Without connection data (\<open>undefined\<close> or \<open>null\<close>) the first call throws after it has
  set the flag and built the Terminal, and before it builds a socket; a second call then
  returns at the guard: one terminal widget and no socket. Both call sites of the page
  pass the connection data that they have tested to be truthy.
\<close>

lemma initialization_without_data:
  assumes "nullish d1"
  shows "\<exists>t1 t2. initializeTerminal d1 (new_tab m) = Inl (TypeError, t1)
     \<and> initializeTerminal d2 t1 = Inr t2
     \<and> length (terminals t2) = 1 \<and> client_sockets t2 = []"
proof -
  obtain t1 where 1: "initializeTerminal d1 (new_tab m) = Inl (TypeError, t1)"
    "terminals t1 = [\<lparr>t_disposed = False, t_opened = m\<rparr>]" "client_sockets t1 = []"
    "globalIsInitialized t1"
    using assms
    by (simp add: initializeTerminal_def Let_def drop_global_socket_def new_tab_def)
  from initializeTerminal_guard [OF 1(4), of d2] 1 show ?thesis by auto
qed

text \<open>
  Claim C8. \<open>initializeTerminal\<close> sets the global flag before it constructs anything,
  and a call that finds the flag set returns without constructing a Terminal or a socket
  and leaves the global instances as they are (it only points the refs of the component
  at them and updates the displayed status). So two calls on a fresh page with
  connection data (not \<open>undefined\<close> and not \<open>null\<close>; the second call with any argument),
  with no teardown between them, both return and leave exactly one terminal widget and
  one socket, both alive.
\<close>

theorem second_initialization:
  "globalIsInitialized (reached (initializeTerminal d1 t))
   \<and> (globalIsInitialized t \<longrightarrow>
        (\<exists>t'. initializeTerminal d2 t = Inr t'
           \<and> terminals t' = terminals t
           \<and> client_sockets t' = client_sockets t
           \<and> globalTerminalInstance t' = globalTerminalInstance t
           \<and> globalSocketInstance t' = globalSocketInstance t))
   \<and> (\<not> nullish d1 \<longrightarrow>
        (\<exists>t1 t2. initializeTerminal d1 (new_tab m) = Inr t1
           \<and> initializeTerminal d2 t1 = Inr t2
           \<and> terminals t2 = terminals t1 \<and> client_sockets t2 = client_sockets t1
           \<and> length (terminals t2) = 1 \<and> length (client_sockets t2) = 1
           \<and> live_terminals t2 = 1 \<and> live_sockets t2 = 1))"
proof (intro conjI impI)
  show "globalIsInitialized (reached (initializeTerminal d1 t))"
    by (rule initializeTerminal_sets_flag)
next
  assume "globalIsInitialized t"
  from initializeTerminal_guard [OF this, of d2]
  show "\<exists>t'. initializeTerminal d2 t = Inr t'
           \<and> terminals t' = terminals t
           \<and> client_sockets t' = client_sockets t
           \<and> globalTerminalInstance t' = globalTerminalInstance t
           \<and> globalSocketInstance t' = globalSocketInstance t"
    by blast
next
  assume "\<not> nullish d1"
  from initializeTerminal_new_tab [OF this, of m] obtain t1 where
    1: "initializeTerminal d1 (new_tab m) = Inr t1"
      "terminals t1 = [\<lparr>t_disposed = False, t_opened = m\<rparr>]"
      "client_sockets t1
         = [\<lparr>k_connected = False, k_listeners = 7, k_closed = False,
             k_userId = orElse (getProp d1 ''userId'') (JStr []),
             k_userName = orElse (getProp d1 ''userName'') (JStr []),
             k_userRole = orElse (getProp d1 ''userRole'') (JStr (js ''student''))\<rparr>]"
      "globalIsInitialized t1"
    by blast
  from initializeTerminal_guard [OF 1(4), of d2] obtain t2 where
    2: "initializeTerminal d2 t1 = Inr t2" "terminals t2 = terminals t1"
      "client_sockets t2 = client_sockets t1"
    by blast
  have "length (terminals t2) = 1 \<and> length (client_sockets t2) = 1
      \<and> live_terminals t2 = 1 \<and> live_sockets t2 = 1"
    by (simp add: 1 2 live_terminals_def live_sockets_def)
  with 1(1) 2 show "\<exists>t1 t2. initializeTerminal d1 (new_tab m) = Inr t1
           \<and> initializeTerminal d2 t1 = Inr t2
           \<and> terminals t2 = terminals t1 \<and> client_sockets t2 = client_sockets t1
           \<and> length (terminals t2) = 1 \<and> length (client_sockets t2) = 1
           \<and> live_terminals t2 = 1 \<and> live_sockets t2 = 1"
    by blast
qed

lemma page_data_props:
  "\<not> nullish page_data"
  "orElse (getProp page_data ''userId'') (JStr []) = user0"
  "orElse (getProp page_data ''userName'') (JStr []) = JStr (js ''Ann'')"
  "orElse (getProp page_data ''userRole'') (JStr (js ''student'')) = JStr (js ''student'')"
  by (simp_all add: page_data_def user0_def js_def orElse_def)

theorem second_initialization_witness:
  "\<not> nullish page_data
   \<and> terminals (reached (initializeTerminal page_data
         (reached (initializeTerminal page_data (new_tab True)))))
     = [\<lparr>t_disposed = False, t_opened = True\<rparr>]
   \<and> client_sockets (reached (initializeTerminal page_data
         (reached (initializeTerminal page_data (new_tab True)))))
     = [\<lparr>k_connected = False, k_listeners = 7, k_closed = False, k_userId = user0,
         k_userName = JStr (js ''Ann''), k_userRole = JStr (js ''student'')\<rparr>]
   \<and> live_terminals (reached (initializeTerminal page_data
         (reached (initializeTerminal page_data (new_tab True))))) = 1
   \<and> live_sockets (reached (initializeTerminal page_data
         (reached (initializeTerminal page_data (new_tab True))))) = 1"
proof -
  from second_initialization [of page_data "new_tab True" page_data True]
    page_data_props(1)
  obtain t1 t2 where 1: "initializeTerminal page_data (new_tab True) = Inr t1"
    "initializeTerminal page_data t1 = Inr t2"
    "terminals t2 = terminals t1" "client_sockets t2 = client_sockets t1"
    "live_terminals t2 = 1" "live_sockets t2 = 1"
    by blast
  from initializeTerminal_new_tab [OF page_data_props(1), of True] 1(1)
  have 2: "terminals t1 = [\<lparr>t_disposed = False, t_opened = True\<rparr>]"
    "client_sockets t1
       = [\<lparr>k_connected = False, k_listeners = 7, k_closed = False, k_userId = user0,
           k_userName = JStr (js ''Ann''), k_userRole = JStr (js ''student'')\<rparr>]"
    by (simp_all add: page_data_props)
  show ?thesis
    by (simp add: 1 2 reached_def page_data_props(1))
qed

end
